theory Spec2Isabelle
  imports Complex_Main "HOL-Library.Monad_Syntax"
begin

section \<open>Strings\<close>

text \<open>
  A JavaScript string is a sequence of UTF-16 code units. The model takes the strings
  whose code units are below 256 (Latin-1), one \<^typ>\<open>char\<close> per code unit. On these,
  \<open>toLowerCase\<close> shifts \<open>A-Z\<close> and the accented capitals \<open>0xC0-0xDE\<close> (without the
  multiplication sign \<open>0xD7\<close>) by 32, and the white space of \<open>trim\<close> and of the
  regular-expression class \<open>\s\<close> is TAB, LF, VT, FF, CR, space and the no-break space.
\<close>

definition isWhiteSpace :: "char \<Rightarrow> bool" where
  "isWhiteSpace c =
     (c = CHR 0x09 \<or> c = CHR 0x0A \<or> c = CHR 0x0B \<or> c = CHR 0x0C \<or> c = CHR 0x0D
      \<or> c = CHR '' '' \<or> c = CHR 0xA0)"

definition trim :: "string \<Rightarrow> string" where
  "trim s = rev (dropWhile isWhiteSpace (rev (dropWhile isWhiteSpace s)))"

definition toLowerChar :: "char \<Rightarrow> char" where
  "toLowerChar c =
     (let n = (of_char c :: nat)
      in if (65 \<le> n \<and> n \<le> 90) \<or> (192 \<le> n \<and> n \<le> 222 \<and> n \<noteq> 215)
         then char_of (n + 32) else c)"

definition toLowerCase :: "string \<Rightarrow> string" where
  "toLowerCase s = map toLowerChar s"

definition toUpperChar :: "char \<Rightarrow> char" where
  "toUpperChar c =
     (let n = (of_char c :: nat)
      in if (97 \<le> n \<and> n \<le> 122) \<or> (224 \<le> n \<and> n \<le> 254 \<and> n \<noteq> 247)
         then char_of (n - 32) else c)"

definition isDigit :: "char \<Rightarrow> bool" where
  "isDigit c = (let n = (of_char c :: nat) in 48 \<le> n \<and> n \<le> 57)"

text \<open>The decimal numeral of a natural number and of an integer, as \<open>String(n)\<close> prints
  an integral number below \<open>2^53\<close> in absolute value (beyond that \<open>String\<close>
  prints the shortest digits that read back as the same double, not the exact ones).\<close>

definition digitChar :: "nat \<Rightarrow> char" where
  "digitChar d = char_of (48 + d)"

fun natToString :: "nat \<Rightarrow> string" where
  "natToString n = (if n < 10 then [digitChar n] else natToString (n div 10) @ [digitChar (n mod 10)])"

declare natToString.simps [simp del]

definition intToString :: "int \<Rightarrow> string" where
  "intToString i = (if i < 0 then CHR ''-'' # natToString (nat (- i)) else natToString (nat i))"

text \<open>\<open>Number(s)\<close> on a string of decimal digits: its decimal value (leading zeros allowed).\<close>

definition digitValue :: "char \<Rightarrow> nat" where
  "digitValue c = of_char c - 48"

definition digitsToNat :: "string \<Rightarrow> nat" where
  "digitsToNat s = foldl (\<lambda>acc c. 10 * acc + digitValue c) 0 s"

section \<open>Header normalizer\<close>

text \<open>
  \<open>normalizeHeaderKey\<close> is a chain of five replacements and a trim. Each global
  \<open>replace\<close> scans from the left and, where the pattern matches, emits the replacement
  and resumes after the match.

  \<open>/\r?\n+/g\<close>: an optional CR followed by one or more LF becomes one space. A CR that
  no LF follows is not matched.
\<close>

definition CR :: char where "CR = CHR 0x0D"
definition LF :: char where "LF = CHR 0x0A"

function replaceNewlines :: "string \<Rightarrow> string" where
  "replaceNewlines [] = []"
| "replaceNewlines (c # cs) =
     (if c = CR \<and> (case cs of [] \<Rightarrow> False | d # _ \<Rightarrow> d = LF)
        then CHR '' '' # replaceNewlines (dropWhile (\<lambda>x. x = LF) cs)
      else if c = LF
        then CHR '' '' # replaceNewlines (dropWhile (\<lambda>x. x = LF) cs)
      else c # replaceNewlines cs)"
  by pat_completeness auto
termination
  by (relation "measure length") (auto simp: length_dropWhile_le le_imp_less_Suc)

text \<open>
  \<open>/\(.*?\)/g\<close>: an opening parenthesis, the shortest run of characters other than line
  terminators, and a closing parenthesis are removed. The dot does not match LF or CR
  (nor the separators U+2028 and U+2029, which are outside the modelled range), so a
  parenthesis whose first closing partner lies beyond a line terminator stays.
\<close>

definition isLineTerminator :: "char \<Rightarrow> bool" where
  "isLineTerminator c = (c = LF \<or> c = CR)"

function stripParens :: "string \<Rightarrow> string" where
  "stripParens [] = []"
| "stripParens (c # cs) =
     (if c = CHR ''(''
      then (case dropWhile (\<lambda>x. x \<noteq> CHR '')'' \<and> \<not> isLineTerminator x) cs of
              [] \<Rightarrow> c # stripParens cs
            | d # rest \<Rightarrow> if d = CHR '')'' then stripParens rest else c # stripParens cs)
      else c # stripParens cs)"
  by pat_completeness auto
termination
proof (relation "measure length")
  fix c :: char and cs x21 x22
  assume "dropWhile (\<lambda>x. x \<noteq> CHR '')'' \<and> \<not> isLineTerminator x) cs = x21 # x22"
  then have "length (x21 # x22) \<le> length cs"
    by (metis length_dropWhile_le)
  then show "(x22, c # cs) \<in> measure length" by simp
qed auto

text \<open>\<open>/&amp;/g\<close>: the five characters of the HTML entity become \<open>and\<close>.\<close>

function replaceAmp :: "string \<Rightarrow> string" where
  "replaceAmp [] = []"
| "replaceAmp (c # cs) =
     (if take 5 (c # cs) = ''&amp;'' then ''and'' @ replaceAmp (drop 4 cs)
      else c # replaceAmp cs)"
  by pat_completeness auto
termination
  by (relation "measure length") auto

text \<open>\<open>/[^a-z0-9?]+/g\<close> with the empty replacement keeps exactly the characters of the
  class \<open>[a-z0-9?]\<close>.\<close>

definition isKeyChar :: "char \<Rightarrow> bool" where
  "isKeyChar c =
     (let n = (of_char c :: nat)
      in (97 \<le> n \<and> n \<le> 122) \<or> (48 \<le> n \<and> n \<le> 57) \<or> n = 63)"

definition normalizeHeaderKey :: "string \<Rightarrow> string" where
  "normalizeHeaderKey key =
     trim (filter isKeyChar (replaceAmp (stripParens (replaceNewlines (toLowerCase key)))))"

text \<open>
  The static table \<open>columnMap\<close> maps a normalized header to the field of the record
  it fills. It is an object literal, so the lookup \<open>columnMap[k]\<close> also finds what the
  literal inherits from \<open>Object.prototype\<close>. A normalized key consists of the characters
  \<open>[a-z0-9?]\<close> only, and the one inherited property with such a name is
  \<open>constructor\<close>: there the lookup yields the function \<open>Object\<close>, which is truthy and is
  none of the field names. The lookup returns \<open>Field f\<close> for an entry of the table,
  \<open>Inherited\<close> for \<open>constructor\<close>, and \<open>None\<close> (\<open>undefined\<close>) otherwise.

  \<open>ColumnKey\<close> is \<open>keyof StudentRecord\<close>. The key \<open>checkInDates\<close> is left out: no
  entry of the table maps to it and no code reads or writes the field.
\<close>

datatype ColumnKey =
    FirstName | LastName | StudentName | SchoolName | HomeZipCode | County | Grade | Gender
  | Age | FirstVisitDate | YearsWithJsac | HeardAbout | Siblings | ParentsGuardians
  | CareerInterest | Hobbies | VisitsPastMonth | VisitsPastQuarter | VisitsPastYear
  | IsAdult | TeamName | TeamNumber | Email | CheckedIn | CheckedOut | CheckInDate
  | CheckOutDate | ElapsedTime

datatype mapped = Field ColumnKey | Inherited

definition columnTable :: "(string \<times> ColumnKey) list" where
  "columnTable =
     [(''name'', StudentName),
      (''schoolname'', SchoolName),
      (''homezipcode'', HomeZipCode),
      (''county'', County),
      (''grade'', Grade),
      (''gender'', Gender),
      (''age'', Age),
      (''dateoffirstvisit'', FirstVisitDate),
      (''numberofsiblings'', Siblings),
      (''numberofparentsinhousehold'', ParentsGuardians),
      (''careerinterest'', CareerInterest),
      (''hobbies'', Hobbies),
      (''adult?'', IsAdult),
      (''teamname'', TeamName),
      (''teamnumber'', TeamNumber),
      (''email'', Email),
      (''checkedin'', CheckedIn),
      (''checkedout'', CheckedOut),
      (''checkindate'', CheckInDate),
      (''checkoutdate'', CheckOutDate),
      (''elapsedtime'', ElapsedTime)]"

definition columnMap :: "string \<Rightarrow> mapped option" where
  "columnMap k =
     (case map_of columnTable k of
        Some f \<Rightarrow> Some (Field f)
      | None \<Rightarrow> if k = ''constructor'' then Some Inherited else None)"

section \<open>Values\<close>

text \<open>
  A JavaScript number is a double: not-a-number, an infinity, or a finite value, which
  is a rational (the two zeros are not told apart by any code below). A \<open>Date\<close> object
  holds a time value, milliseconds since the epoch, or NaN (an invalid date). A raw
  cell is what the sheet reader hands over: a string, a number, a boolean or null, and
  the code also provides for \<open>undefined\<close> and for \<open>Date\<close> objects.
\<close>

datatype number = NaN | PosInfinity | NegInfinity | Finite rat

datatype jsdate = DateMs int | InvalidDate

datatype raw = RUndefined | RNull | RBool bool | RNum number | RStr string | RDate jsdate

text \<open>
  What the code takes from the platform and from its libraries, and what is not part
  of this repository, is a parameter: the printing of a finite number that is not an
  integer below \<open>2^53\<close> in absolute value, \<open>Number\<close> on a string, the printing of a date, the
  spreadsheet library's \<open>SSF.parse_date_code\<close> (year, month, day of a serial date, or
  null), the two free-form date parsers (\<open>parseISO\<close> of date-fns and \<open>new Date(string)\<close>),
  the offset of the local time zone in milliseconds (\<open>LocalTZA(t, isUTC)\<close> of the
  language standard), and the collation of \<open>localeCompare\<close>.
\<close>

record env =
  finiteToString :: "rat \<Rightarrow> string"
  stringToNumber :: "string \<Rightarrow> number"
  dateToString :: "jsdate \<Rightarrow> string"
  parse_date_code :: "number \<Rightarrow> (int \<times> int \<times> int) option"
  parseISO :: "string \<Rightarrow> jsdate"
  dateParse :: "string \<Rightarrow> jsdate"
  localTZA :: "int \<Rightarrow> bool \<Rightarrow> int"
  localeCompare :: "string \<Rightarrow> string \<Rightarrow> int"

definition numberToString :: "env \<Rightarrow> number \<Rightarrow> string" where
  "numberToString e n =
     (case n of
        NaN \<Rightarrow> ''NaN''
      | PosInfinity \<Rightarrow> ''Infinity''
      | NegInfinity \<Rightarrow> ''-Infinity''
      | Finite r \<Rightarrow>
          if of_int \<lfloor>r\<rfloor> = r \<and> \<bar>r\<bar> < 2 ^ 53 then intToString \<lfloor>r\<rfloor>
          else finiteToString e r)"

text \<open>\<open>String(value)\<close> and \<open>Number(value)\<close>.\<close>

definition toString :: "env \<Rightarrow> raw \<Rightarrow> string" where
  "toString e v =
     (case v of
        RUndefined \<Rightarrow> ''undefined''
      | RNull \<Rightarrow> ''null''
      | RBool b \<Rightarrow> (if b then ''true'' else ''false'')
      | RNum n \<Rightarrow> numberToString e n
      | RStr s \<Rightarrow> s
      | RDate d \<Rightarrow> dateToString e d)"

definition toNumber :: "env \<Rightarrow> raw \<Rightarrow> number" where
  "toNumber e v =
     (case v of
        RUndefined \<Rightarrow> NaN
      | RNull \<Rightarrow> Finite 0
      | RBool b \<Rightarrow> (if b then Finite 1 else Finite 0)
      | RNum n \<Rightarrow> n
      | RStr s \<Rightarrow> stringToNumber e s
      | RDate d \<Rightarrow> (case d of DateMs t \<Rightarrow> Finite (of_int t) | InvalidDate \<Rightarrow> NaN))"

definition isFinite :: "number \<Rightarrow> bool" where
  "isFinite n = (case n of Finite _ \<Rightarrow> True | _ \<Rightarrow> False)"

definition isValidDate :: "jsdate \<Rightarrow> bool" where
  "isValidDate d = (case d of DateMs _ \<Rightarrow> True | InvalidDate \<Rightarrow> False)"

section \<open>Cell coercers\<close>

definition parseNumber :: "env \<Rightarrow> raw \<Rightarrow> number option" where
  "parseNumber e v =
     (if v = RUndefined \<or> v = RNull \<or> v = RStr [] then None
      else let numeric = toNumber e v
           in if isFinite numeric then Some numeric else None)"

definition parseBooleanFlag :: "raw \<Rightarrow> bool option" where
  "parseBooleanFlag v =
     (case v of
        RUndefined \<Rightarrow> None
      | RNull \<Rightarrow> None
      | RBool b \<Rightarrow> Some b
      | RNum n \<Rightarrow> if n = Finite 1 then Some True else if n = Finite 0 then Some False else None
      | RStr s \<Rightarrow>
          if s = [] then None
          else let normalized = toLowerCase (trim s)
               in if normalized = [] then None
                  else if normalized \<in> set [''y'', ''yes'', ''true'', ''adult''] then Some True
                  else if normalized \<in> set [''n'', ''no'', ''false'', ''youth'', ''child'']
                    then Some False
                  else None
      | RDate _ \<Rightarrow> None)"

definition hasText :: "raw \<Rightarrow> bool" where
  "hasText v =
     (case v of
        RUndefined \<Rightarrow> False
      | RNull \<Rightarrow> False
      | RStr s \<Rightarrow> trim s \<noteq> []
      | RNum n \<Rightarrow> n \<noteq> NaN
      | _ \<Rightarrow> True)"

section \<open>Time values\<close>

text \<open>
  The date arithmetic of the language standard, on integers: days since the epoch,
  the day a year starts, year, month (from 0), day of the month and day of the week
  (0 is Sunday) of a time value, and the way back through \<open>MakeDay\<close>, which carries
  months outside \<open>0..11\<close> into the year and days outside the month into the neighbouring
  months. \<open>div\<close> and \<open>mod\<close> on \<^typ>\<open>int\<close> round down, as \<open>floor\<close> and the standard's
  \<open>modulo\<close> do.
\<close>

definition msPerDay :: int where "msPerDay = 86400000"

definition Day :: "int \<Rightarrow> int" where "Day t = t div msPerDay"

definition TimeWithinDay :: "int \<Rightarrow> int" where "TimeWithinDay t = t mod msPerDay"

definition DayFromYear :: "int \<Rightarrow> int" where
  "DayFromYear y =
     365 * (y - 1970) + (y - 1969) div 4 - (y - 1901) div 100 + (y - 1601) div 400"

definition isLeapYear :: "int \<Rightarrow> bool" where
  "isLeapYear y = (y mod 4 = 0 \<and> (y mod 100 \<noteq> 0 \<or> y mod 400 = 0))"

text \<open>The standard defines the year of a time value as the largest year that starts
  on or before its day. The estimate from the mean length of a year is off by at
  most one, which the two tests correct (\<open>YearFromDay_correct\<close> below).\<close>

definition YearFromDay :: "int \<Rightarrow> int" where
  "YearFromDay d =
     (let y = 1970 + (d * 400) div 146097
      in if d < DayFromYear y then y - 1
         else if DayFromYear (y + 1) \<le> d then y + 1
         else y)"

definition YearFromTime :: "int \<Rightarrow> int" where
  "YearFromTime t = YearFromDay (Day t)"

definition monthStart :: "int \<Rightarrow> bool \<Rightarrow> int" where
  "monthStart m leap =
     (let l = (if leap then 1 else 0)
      in if m = 0 then 0 else if m = 1 then 31 else if m = 2 then 59 + l
         else if m = 3 then 90 + l else if m = 4 then 120 + l else if m = 5 then 151 + l
         else if m = 6 then 181 + l else if m = 7 then 212 + l else if m = 8 then 243 + l
         else if m = 9 then 273 + l else if m = 10 then 304 + l else 334 + l)"

definition DayWithinYear :: "int \<Rightarrow> int" where
  "DayWithinYear t = Day t - DayFromYear (YearFromTime t)"

definition MonthFromTime :: "int \<Rightarrow> int" where
  "MonthFromTime t =
     (let d = DayWithinYear t; leap = isLeapYear (YearFromTime t)
      in if d < monthStart 1 leap then 0 else if d < monthStart 2 leap then 1
         else if d < monthStart 3 leap then 2 else if d < monthStart 4 leap then 3
         else if d < monthStart 5 leap then 4 else if d < monthStart 6 leap then 5
         else if d < monthStart 7 leap then 6 else if d < monthStart 8 leap then 7
         else if d < monthStart 9 leap then 8 else if d < monthStart 10 leap then 9
         else if d < monthStart 11 leap then 10 else 11)"

definition DateFromTime :: "int \<Rightarrow> int" where
  "DateFromTime t =
     DayWithinYear t - monthStart (MonthFromTime t) (isLeapYear (YearFromTime t)) + 1"

definition WeekDay :: "int \<Rightarrow> int" where
  "WeekDay t = (Day t + 4) mod 7"

definition MakeTime :: "int \<Rightarrow> int \<Rightarrow> int \<Rightarrow> int \<Rightarrow> int" where
  "MakeTime h m s ms = h * 3600000 + m * 60000 + s * 1000 + ms"

definition MakeDay :: "int \<Rightarrow> int \<Rightarrow> int \<Rightarrow> int" where
  "MakeDay year month date =
     (let ym = year + month div 12; mn = month mod 12
      in DayFromYear ym + monthStart mn (isLeapYear ym) + date - 1)"

definition MakeDate :: "int \<Rightarrow> int \<Rightarrow> int" where
  "MakeDate day time = day * msPerDay + time"

text \<open>\<open>TimeClip\<close>: a time value beyond 100 million days from the epoch is NaN, and a
  \<open>Date\<close> made from it is invalid.\<close>

definition TimeClip :: "int \<Rightarrow> jsdate" where
  "TimeClip t = (if \<bar>t\<bar> \<le> 8640000000000000 then DateMs t else InvalidDate)"

text \<open>\<open>Date.UTC\<close> and the local-time constructor \<open>new Date(y, m, d)\<close> both read a year
  from 0 to 99 as a year of the twentieth century.\<close>

definition fullYear :: "int \<Rightarrow> int" where
  "fullYear y = (if 0 \<le> y \<and> y \<le> 99 then 1900 + y else y)"

definition DateUTC :: "int \<Rightarrow> int \<Rightarrow> int \<Rightarrow> int \<Rightarrow> int \<Rightarrow> int \<Rightarrow> int \<Rightarrow> jsdate" where
  "DateUTC year month date h m s ms =
     TimeClip (MakeDate (MakeDay (fullYear year) month date) (MakeTime h m s ms))"

definition LocalTime :: "env \<Rightarrow> int \<Rightarrow> int" where
  "LocalTime e t = t + localTZA e t True"

definition UTCofLocal :: "env \<Rightarrow> int \<Rightarrow> int" where
  "UTCofLocal e t = t - localTZA e t False"

definition newDateLocal :: "env \<Rightarrow> int \<Rightarrow> int \<Rightarrow> int \<Rightarrow> jsdate" where
  "newDateLocal e year month date =
     TimeClip (UTCofLocal e (MakeDate (MakeDay (fullYear year) month date) 0))"

section \<open>Date coercion\<close>

text \<open>
  The explicit timestamp pattern of \<open>parseDateValue\<close>,
  \<^verbatim>\<open>/^(\d{4})-(\d{2})-(\d{2})\s+(\d{1,2}):(\d{2})\s*([AP]M)\s+([+-])(\d{2}):(\d{2})$/i\<close>,
  as a left-to-right matcher that returns the nine groups. No choice in the pattern
  needs backtracking: a digit is neither white space, a colon nor a letter, so the
  greedy one-or-two digits of the hour and the greedy runs of white space are the only
  way to match. Ignoring case, \<open>[AP]M\<close> also takes \<open>a\<close>, \<open>p\<close> and \<open>m\<close>; no other
  character has \<open>A\<close>, \<open>P\<close> or \<open>M\<close> as its capital.
\<close>

definition takeDigits :: "nat \<Rightarrow> string \<Rightarrow> (string \<times> string) option" where
  "takeDigits n s =
     (if n \<le> length s \<and> list_all isDigit (take n s) then Some (take n s, drop n s) else None)"

definition expectChar :: "char \<Rightarrow> string \<Rightarrow> string option" where
  "expectChar c s = (case s of [] \<Rightarrow> None | d # r \<Rightarrow> if d = c then Some r else None)"

definition spaces1 :: "string \<Rightarrow> string option" where
  "spaces1 s =
     (case s of [] \<Rightarrow> None
      | d # r \<Rightarrow> if isWhiteSpace d then Some (dropWhile isWhiteSpace r) else None)"

definition takeHour :: "string \<Rightarrow> (string \<times> string) option" where
  "takeHour s = (case takeDigits 2 s of Some x \<Rightarrow> Some x | None \<Rightarrow> takeDigits 1 s)"

definition takeAmPm :: "string \<Rightarrow> (string \<times> string) option" where
  "takeAmPm s =
     (case s of
        a # m # r \<Rightarrow>
          if a \<in> set ''APap'' \<and> m \<in> set ''Mm'' then Some ([a, m], r) else None
      | _ \<Rightarrow> None)"

definition takeSign :: "string \<Rightarrow> (string \<times> string) option" where
  "takeSign s =
     (case s of [] \<Rightarrow> None
      | d # r \<Rightarrow> if d = CHR ''+'' \<or> d = CHR ''-'' then Some ([d], r) else None)"

record stamp =
  g1 :: string
  g2 :: string
  g3 :: string
  g4 :: string
  g5 :: string
  g6 :: string
  g7 :: string
  g8 :: string
  g9 :: string

definition matchStamp :: "string \<Rightarrow> stamp option" where
  "matchStamp s =
     do {
       (year, s1) \<leftarrow> takeDigits 4 s;
       s2 \<leftarrow> expectChar (CHR ''-'') s1;
       (month, s3) \<leftarrow> takeDigits 2 s2;
       s4 \<leftarrow> expectChar (CHR ''-'') s3;
       (day, s5) \<leftarrow> takeDigits 2 s4;
       s6 \<leftarrow> spaces1 s5;
       (hour, s7) \<leftarrow> takeHour s6;
       s8 \<leftarrow> expectChar (CHR '':'') s7;
       (minute, s9) \<leftarrow> takeDigits 2 s8;
       (ampm, s10) \<leftarrow> takeAmPm (dropWhile isWhiteSpace s9);
       s11 \<leftarrow> spaces1 s10;
       (sign, s12) \<leftarrow> takeSign s11;
       (tzH, s13) \<leftarrow> takeDigits 2 s12;
       s14 \<leftarrow> expectChar (CHR '':'') s13;
       (tzM, s15) \<leftarrow> takeDigits 2 s14;
       if s15 = [] then
         Some \<lparr>g1 = year, g2 = month, g3 = day, g4 = hour, g5 = minute, g6 = ampm,
               g7 = sign, g8 = tzH, g9 = tzM\<rparr>
       else None
     }"

text \<open>The instant of a matched timestamp: the wall clock turned to 24 hours, the
  fields read as a UTC time, and the offset taken off.\<close>

definition stampDate :: "stamp \<Rightarrow> jsdate" where
  "stampDate m =
     (let year = int (digitsToNat (g1 m));
          month = int (digitsToNat (g2 m));
          day = int (digitsToNat (g3 m));
          hour = int (digitsToNat (g4 m));
          minute = int (digitsToNat (g5 m));
          ampm = map toUpperChar (g6 m);
          sign = (if g7 m = ''+'' then 1 else - 1);
          tzH = int (digitsToNat (g8 m));
          tzM = int (digitsToNat (g9 m));
          hour = (if ampm = ''AM'' then hour mod 12 else hour mod 12 + 12)
      in case DateUTC year (month - 1) day hour minute 0 0 of
           InvalidDate \<Rightarrow> InvalidDate
         | DateMs localUtcMs \<Rightarrow>
             (let offsetMinutes = sign * (tzH * 60 + tzM);
                  utcMs = localUtcMs - offsetMinutes * 60 * 1000
              in TimeClip utcMs))"

text \<open>\<open>!value\<close>: the falsy raw values.\<close>

definition falsy :: "raw \<Rightarrow> bool" where
  "falsy v =
     (case v of
        RUndefined \<Rightarrow> True
      | RNull \<Rightarrow> True
      | RBool b \<Rightarrow> \<not> b
      | RNum n \<Rightarrow> n = NaN \<or> n = Finite 0
      | RStr s \<Rightarrow> s = []
      | RDate _ \<Rightarrow> False)"

definition parseDateValue :: "env \<Rightarrow> raw \<Rightarrow> jsdate option" where
  "parseDateValue e v =
     (if falsy v \<and> v \<noteq> RNum (Finite 0) then None
      else case v of
        RDate d \<Rightarrow> if isValidDate d then Some d else None
      | RNum n \<Rightarrow>
          (case parse_date_code e n of
             Some (y, m, d) \<Rightarrow> Some (newDateLocal e y (m - 1) d)
           | None \<Rightarrow> None)
      | RStr s \<Rightarrow>
          (let trimmed = trim s
           in if trimmed = [] then None
              else case matchStamp trimmed of
                Some m \<Rightarrow> (let d = stampDate m in if isValidDate d then Some d else None)
              | None \<Rightarrow>
                  (let isoCandidate = parseISO e trimmed
                   in if isValidDate isoCandidate then Some isoCandidate
                      else let parsed = dateParse e trimmed
                           in if isValidDate parsed then Some parsed else None))
      | _ \<Rightarrow> None)"

section \<open>Student records and the row parser\<close>

text \<open>
  A field of \<open>StudentRecord\<close> that is \<open>undefined\<close> or \<open>null\<close> is \<open>None\<close>: the code
  that reads the records treats the two alike (\<open>== null\<close>, \<open>??\<close>, truthiness). The
  field \<open>teamNumber\<close> is declared a number, but the row parser fills it through the
  text branch, so at run time it holds the trimmed text of the cell. \<open>ctorProp\<close> is
  the property that the parser writes under the printed form of the function \<open>Object\<close>
  when a header normalizes to \<open>constructor\<close> (see \<open>columnMap\<close>).
\<close>

record StudentRecord =
  firstName :: "string option"
  lastName :: "string option"
  studentName :: "string option"
  schoolName :: "string option"
  homeZipCode :: "string option"
  county :: "string option"
  grade :: "string option"
  gender :: "string option"
  age :: "number option"
  firstVisitDate :: "jsdate option"
  yearsWithJsac :: "number option"
  heardAbout :: "string option"
  siblings :: "number option"
  parentsGuardians :: "number option"
  careerInterest :: "string option"
  hobbies :: "string option"
  visitsPastMonth :: "number option"
  visitsPastQuarter :: "number option"
  visitsPastYear :: "number option"
  isAdult :: "bool option"
  teamName :: "string option"
  teamNumber :: "string option"
  email :: "string option"
  checkedIn :: "bool option"
  checkedOut :: "bool option"
  checkInDate :: "jsdate option"
  checkOutDate :: "jsdate option"
  elapsedTime :: "number option"
  ctorProp :: "string option"

definition emptyRecord :: StudentRecord where
  "emptyRecord =
     \<lparr>firstName = None, lastName = None, studentName = None, schoolName = None,
      homeZipCode = None, county = None, grade = None, gender = None, age = None,
      firstVisitDate = None, yearsWithJsac = None, heardAbout = None, siblings = None,
      parentsGuardians = None, careerInterest = None, hobbies = None,
      visitsPastMonth = None, visitsPastQuarter = None, visitsPastYear = None,
      isAdult = None, teamName = None, teamNumber = None, email = None, checkedIn = None,
      checkedOut = None, checkInDate = None, checkOutDate = None, elapsedTime = None,
      ctorProp = None\<rparr>"

text \<open>The assignment \<open>record[mappedKey] = value\<close>, by the kind of value the branch of
  the \<open>switch\<close> stores.\<close>

fun setFlag :: "ColumnKey \<Rightarrow> bool option \<Rightarrow> StudentRecord \<Rightarrow> StudentRecord" where
  "setFlag CheckedIn v r = r\<lparr>checkedIn := v\<rparr>"
| "setFlag CheckedOut v r = r\<lparr>checkedOut := v\<rparr>"
| "setFlag IsAdult v r = r\<lparr>isAdult := v\<rparr>"
| "setFlag _ v r = r"

fun setNumber :: "ColumnKey \<Rightarrow> number option \<Rightarrow> StudentRecord \<Rightarrow> StudentRecord" where
  "setNumber Age v r = r\<lparr>age := v\<rparr>"
| "setNumber Siblings v r = r\<lparr>siblings := v\<rparr>"
| "setNumber ParentsGuardians v r = r\<lparr>parentsGuardians := v\<rparr>"
| "setNumber YearsWithJsac v r = r\<lparr>yearsWithJsac := v\<rparr>"
| "setNumber VisitsPastMonth v r = r\<lparr>visitsPastMonth := v\<rparr>"
| "setNumber VisitsPastQuarter v r = r\<lparr>visitsPastQuarter := v\<rparr>"
| "setNumber VisitsPastYear v r = r\<lparr>visitsPastYear := v\<rparr>"
| "setNumber ElapsedTime v r = r\<lparr>elapsedTime := v\<rparr>"
| "setNumber _ v r = r"

fun setDate :: "ColumnKey \<Rightarrow> jsdate option \<Rightarrow> StudentRecord \<Rightarrow> StudentRecord" where
  "setDate FirstVisitDate v r = r\<lparr>firstVisitDate := v\<rparr>"
| "setDate CheckInDate v r = r\<lparr>checkInDate := v\<rparr>"
| "setDate CheckOutDate v r = r\<lparr>checkOutDate := v\<rparr>"
| "setDate _ v r = r"

fun setText :: "ColumnKey \<Rightarrow> string option \<Rightarrow> StudentRecord \<Rightarrow> StudentRecord" where
  "setText FirstName v r = r\<lparr>firstName := v\<rparr>"
| "setText LastName v r = r\<lparr>lastName := v\<rparr>"
| "setText StudentName v r = r\<lparr>studentName := v\<rparr>"
| "setText SchoolName v r = r\<lparr>schoolName := v\<rparr>"
| "setText HomeZipCode v r = r\<lparr>homeZipCode := v\<rparr>"
| "setText County v r = r\<lparr>county := v\<rparr>"
| "setText Grade v r = r\<lparr>grade := v\<rparr>"
| "setText Gender v r = r\<lparr>gender := v\<rparr>"
| "setText HeardAbout v r = r\<lparr>heardAbout := v\<rparr>"
| "setText CareerInterest v r = r\<lparr>careerInterest := v\<rparr>"
| "setText Hobbies v r = r\<lparr>hobbies := v\<rparr>"
| "setText TeamName v r = r\<lparr>teamName := v\<rparr>"
| "setText TeamNumber v r = r\<lparr>teamNumber := v\<rparr>"
| "setText Email v r = r\<lparr>email := v\<rparr>"
| "setText _ v r = r"

text \<open>Truthiness of a text field, \<open>a || b\<close> and \<open>a ?? ''\<close> on strings.\<close>

definition truthyText :: "string option \<Rightarrow> bool" where
  "truthyText v = (case v of None \<Rightarrow> False | Some s \<Rightarrow> s \<noteq> [])"

definition orText :: "string option \<Rightarrow> string \<Rightarrow> string" where
  "orText a b = (case a of None \<Rightarrow> b | Some s \<Rightarrow> if s \<noteq> [] then s else b)"

definition orEmpty :: "string option \<Rightarrow> string" where
  "orEmpty a = (case a of None \<Rightarrow> [] | Some s \<Rightarrow> s)"

text \<open>The default branch of the \<open>switch\<close>: an absent cell stays absent, anything else
  is printed and trimmed.\<close>

definition textValue :: "env \<Rightarrow> raw \<Rightarrow> string option" where
  "textValue e rawValue =
     (if rawValue = RUndefined \<or> rawValue = RNull then None
      else Some (trim (toString e rawValue)))"

text \<open>One round of the loop over \<open>Object.entries(row)\<close>; the state is the record under
  construction and the flag \<open>hasMappedValue\<close>. The branches are those of the
  \<open>switch\<close>, in its order.\<close>

definition parseCell ::
  "env \<Rightarrow> StudentRecord \<times> bool \<Rightarrow> string \<times> raw \<Rightarrow> StudentRecord \<times> bool" where
  "parseCell e st cell =
     (let record = fst st; hasMappedValue = snd st;
          key = fst cell; rawValue = snd cell;
          normalizedKey = normalizeHeaderKey (trim key)
      in if normalizedKey = [] then st
         else case columnMap normalizedKey of
           None \<Rightarrow> st
         | Some Inherited \<Rightarrow>
             (let v = textValue e rawValue
              in (record\<lparr>ctorProp := v\<rparr>, hasMappedValue \<or> truthyText v))
         | Some (Field mappedKey) \<Rightarrow>
             if mappedKey = CheckedIn \<or> mappedKey = CheckedOut then
               (let v = parseBooleanFlag rawValue
                in (setFlag mappedKey v record, hasMappedValue \<or> v \<noteq> None))
             else if mappedKey \<in> set [Age, Siblings, ParentsGuardians, YearsWithJsac,
                                     VisitsPastMonth, VisitsPastQuarter, VisitsPastYear] then
               (let v = parseNumber e rawValue
                in (setNumber mappedKey v record, hasMappedValue \<or> v \<noteq> None))
             else if mappedKey = FirstVisitDate then
               (let v = parseDateValue e rawValue
                in (setDate mappedKey v record, hasMappedValue \<or> v \<noteq> None))
             else if mappedKey = CheckInDate \<or> mappedKey = CheckOutDate then
               (let v = parseDateValue e rawValue
                in (setDate mappedKey v record, hasMappedValue \<or> v \<noteq> None))
             else if mappedKey = IsAdult then
               (let v = parseBooleanFlag rawValue
                in (setFlag mappedKey v record, hasMappedValue \<or> v \<noteq> None))
             else if mappedKey = Email then
               (let v = Some (trim (toString e rawValue))
                in (setText mappedKey v record, hasMappedValue \<or> truthyText v))
             else if mappedKey = ElapsedTime then
               (let v = parseNumber e rawValue
                in (setNumber mappedKey v record, hasMappedValue \<or> v \<noteq> None))
             else
               (let v = textValue e rawValue
                in (setText mappedKey v record, hasMappedValue \<or> truthyText v)))"

definition joinSpace :: "string list \<Rightarrow> string" where
  "joinSpace xs = (case xs of [] \<Rightarrow> [] | x # r \<Rightarrow> foldl (\<lambda>acc y. acc @ '' '' @ y) x r)"

definition composeName :: "StudentRecord \<Rightarrow> StudentRecord" where
  "composeName record =
     (if \<not> truthyText (studentName record) then
        (let composite =
               trim (joinSpace (map orEmpty (filter truthyText [firstName record, lastName record])))
         in if composite \<noteq> [] then record\<lparr>studentName := Some composite\<rparr> else record)
      else record)"

text \<open>A raw row is the list of the entries of the row object, in the order of
  \<open>Object.entries\<close>. The result \<open>None\<close> is the \<open>null\<close> of a discarded row.\<close>

definition parseRow :: "env \<Rightarrow> (string \<times> raw) list \<Rightarrow> StudentRecord option" where
  "parseRow e row =
     (let st = foldl (parseCell e) (emptyRecord, False) row;
          record = composeName (fst st);
          hasMappedValue = snd st
      in if hasMappedValue then Some record else None)"

section \<open>Header-row detector\<close>

text \<open>The scan of \<open>handleFileUpload\<close> for the header row. The sheet is the list of its
  rows, each the list of its cells.\<close>

definition cellLabel :: "env \<Rightarrow> raw \<Rightarrow> string" where
  "cellLabel e cell =
     (case cell of
        RStr s \<Rightarrow> trim s
      | RNum n \<Rightarrow> trim (numberToString e n)
      | _ \<Rightarrow> [])"

definition rowLabels :: "env \<Rightarrow> raw list \<Rightarrow> string list" where
  "rowLabels e row = filter (\<lambda>l. l \<noteq> []) (map (cellLabel e) row)"

definition scoreLabel :: "int \<Rightarrow> string \<Rightarrow> int" where
  "scoreLabel count label =
     (let normalized = normalizeHeaderKey label
      in if normalized = [] then count
         else if columnMap normalized \<noteq> None then count + 1 else count)"

definition rowScore :: "env \<Rightarrow> raw list \<Rightarrow> int" where
  "rowScore e row = foldl scoreLabel 0 (rowLabels e row)"

definition headerStep :: "env \<Rightarrow> nat \<times> int \<Rightarrow> nat \<times> raw list \<Rightarrow> nat \<times> int" where
  "headerStep e best ir =
     (let bestHeaderIndex = fst best; bestScore = snd best; index = fst ir; row = snd ir
      in if rowLabels e row = [] then best
         else let score = rowScore e row
              in if score > bestScore \<and> score \<ge> 2 then (index, score) else best)"

definition bestHeaderIndex :: "env \<Rightarrow> raw list list \<Rightarrow> nat" where
  "bestHeaderIndex e rows = fst (foldl (headerStep e) (0, - 1) (enumerate 0 rows))"

section \<open>Unique student profiles\<close>

record Profile =
  profileName :: string
  profileCounty :: "string option"
  profileHomeZipCode :: "string option"
  profileSchoolName :: "string option"
  profileAge :: "number option"
  profileGrade :: "string option"
  profileGender :: "string option"

definition recordName :: "StudentRecord \<Rightarrow> string" where
  "recordName s =
     trim (orText (studentName s) (orEmpty (firstName s) @ '' '' @ orEmpty (lastName s)))"

definition validCheckIn :: "StudentRecord \<Rightarrow> bool" where
  "validCheckIn s = (case checkInDate s of None \<Rightarrow> False | Some ci \<Rightarrow> isValidDate ci)"

definition profileKey :: "env \<Rightarrow> StudentRecord \<Rightarrow> string" where
  "profileKey e s =
     toLowerCase (recordName s) @ ''|''
     @ (case age s of None \<Rightarrow> [] | Some a \<Rightarrow> toLowerCase (trim (numberToString e a))) @ ''|''
     @ (case age s of None \<Rightarrow> [] | Some a \<Rightarrow> numberToString e a) @ ''|''
     @ orEmpty (teamName s) @ ''|''
     @ orEmpty (teamNumber s)"

definition profileOf :: "StudentRecord \<Rightarrow> Profile" where
  "profileOf s =
     \<lparr>profileName = recordName s, profileCounty = county s,
      profileHomeZipCode = homeZipCode s, profileSchoolName = schoolName s,
      profileAge = age s, profileGrade = grade s, profileGender = gender s\<rparr>"

text \<open>A \<open>Map\<close> is the list of its entries in insertion order; \<open>has\<close> and \<open>get\<close> are
  \<open>map_of\<close>, and \<open>set\<close> on a key that is present replaces the value in place.\<close>

fun mapSet :: "'k \<Rightarrow> 'v \<Rightarrow> ('k \<times> 'v) list \<Rightarrow> ('k \<times> 'v) list" where
  "mapSet k v [] = [(k, v)]"
| "mapSet k v ((k', v') # m) = (if k' = k then (k, v) # m else (k', v') # mapSet k v m)"

definition profileStep ::
  "env \<Rightarrow> (string \<times> Profile) list \<Rightarrow> StudentRecord \<Rightarrow> (string \<times> Profile) list" where
  "profileStep e m s =
     (if recordName s = [] \<or> \<not> validCheckIn s then m
      else let key = profileKey e s
           in if filter (\<lambda>c. c \<noteq> CHR ''|'') key = [] then m
              else if map_of m key = None then mapSet key (profileOf s) m
              else m)"

definition uniqueProfiles :: "env \<Rightarrow> StudentRecord list \<Rightarrow> (string \<times> Profile) list" where
  "uniqueProfiles e students = foldl (profileStep e) [] students"

section \<open>Weekly activity\<close>

text \<open>
  \<open>weekStartMs\<close> and \<open>getWeekRange\<close> share their first three statements, which
  \<open>weekStartDate\<close> is: the calendar date of the instant in local time, read back as a
  UTC midnight, then moved by \<open>setUTCDate\<close> to day \<open>getUTCDate() + 1 - dayNum\<close>, where
  \<open>dayNum\<close> is the day of the week with 7 for Sunday. The result is a \<open>Date\<close>, whose
  time value is the key of the week; an invalid date stands for the key NaN.
\<close>

definition setUTCDate :: "int \<Rightarrow> int \<Rightarrow> jsdate" where
  "setUTCDate t dt =
     TimeClip (MakeDate (MakeDay (YearFromTime t) (MonthFromTime t) dt) (TimeWithinDay t))"

definition weekStartDate :: "env \<Rightarrow> jsdate \<Rightarrow> jsdate" where
  "weekStartDate e d =
     (case d of
        InvalidDate \<Rightarrow> InvalidDate
      | DateMs t \<Rightarrow>
          (let lt = LocalTime e t
           in case DateUTC (YearFromTime lt) (MonthFromTime lt) (DateFromTime lt) 0 0 0 0 of
                InvalidDate \<Rightarrow> InvalidDate
              | DateMs t1 \<Rightarrow>
                  (let dayNum = (if WeekDay t1 = 0 then 7 else WeekDay t1)
                   in setUTCDate t1 (DateFromTime t1 + 1 - dayNum))))"

definition weekStartMs :: "env \<Rightarrow> jsdate \<Rightarrow> jsdate" where
  "weekStartMs e d = weekStartDate e d"

definition fmt :: "jsdate \<Rightarrow> string" where
  "fmt dt =
     (case dt of
        InvalidDate \<Rightarrow> ''NaN/NaN/NaN''
      | DateMs t \<Rightarrow>
          intToString (MonthFromTime t + 1) @ ''/'' @ intToString (DateFromTime t) @ ''/''
          @ intToString (YearFromTime t))"

definition getWeekRange :: "env \<Rightarrow> jsdate \<Rightarrow> string" where
  "getWeekRange e d =
     (let date = weekStartDate e d;
          start = date;
          end = (case date of
                   InvalidDate \<Rightarrow> InvalidDate
                 | DateMs t \<Rightarrow> setUTCDate t (DateFromTime t + 6))
      in fmt start @ '' - '' @ fmt end)"

text \<open>\<open>Array.prototype.sort\<close> is stable; with a comparator that is a consistent order
  it is the stable ascending sort, here by insertion. (With a NaN among the keys the
  comparator \<open>a - b\<close> is not consistent and the standard leaves the order open.)\<close>

fun insertBy :: "('a \<Rightarrow> 'a \<Rightarrow> bool) \<Rightarrow> 'a \<Rightarrow> 'a list \<Rightarrow> 'a list" where
  "insertBy lt x [] = [x]"
| "insertBy lt x (y # ys) = (if lt x y then x # y # ys else y # insertBy lt x ys)"

definition sortBy :: "('a \<Rightarrow> 'a \<Rightarrow> bool) \<Rightarrow> 'a list \<Rightarrow> 'a list" where
  "sortBy lt xs = foldl (\<lambda>acc x. insertBy lt x acc) [] xs"

definition keyBefore :: "jsdate \<times> int \<Rightarrow> jsdate \<times> int \<Rightarrow> bool" where
  "keyBefore a b =
     (case fst a of
        DateMs x \<Rightarrow> (case fst b of DateMs y \<Rightarrow> x - y < 0 | InvalidDate \<Rightarrow> False)
      | InvalidDate \<Rightarrow> False)"

definition addDate :: "env \<Rightarrow> (jsdate \<times> int) list \<Rightarrow> jsdate \<Rightarrow> (jsdate \<times> int) list" where
  "addDate e weekMap date =
     (if \<not> isValidDate date then weekMap
      else let key = weekStartMs e date
           in mapSet key ((case map_of weekMap key of None \<Rightarrow> 0 | Some c \<Rightarrow> c) + 1) weekMap)"

definition weekMapOf :: "env \<Rightarrow> StudentRecord list \<Rightarrow> (jsdate \<times> int) list" where
  "weekMapOf e students =
     foldl (\<lambda>weekMap record.
              case checkInDate record of None \<Rightarrow> weekMap | Some d \<Rightarrow> addDate e weekMap d)
       [] students"

definition weekCounts :: "env \<Rightarrow> StudentRecord list \<Rightarrow> (string \<times> int) list" where
  "weekCounts e students =
     foldl (\<lambda>ordered mc. mapSet (getWeekRange e (fst mc)) (snd mc) ordered) []
       (sortBy keyBefore (weekMapOf e students))"

section \<open>Active check-ins\<close>

record ActiveEntry =
  entryId :: string
  entryName :: string
  entryEmail :: "string option"
  entryTeamName :: "string option"
  entryTeamNumber :: "string option"
  entryCheckInDate :: "jsdate option"

definition orStr :: "string \<Rightarrow> string \<Rightarrow> string" where
  "orStr a b = (if a \<noteq> [] then a else b)"

definition activeId :: "StudentRecord \<Rightarrow> string" where
  "activeId r =
     toLowerCase (trim (orText (email r)
       (orText (studentName r) (orEmpty (firstName r) @ '' '' @ orEmpty (lastName r)))))"

definition eligible :: "StudentRecord \<Rightarrow> bool" where
  "eligible r =
     (let isIn = (checkedIn r = Some True); isOut = (checkedOut r = Some True)
      in \<not> (\<not> isIn \<or> isOut) \<and> activeId r \<noteq> [])"

definition entryOf :: "StudentRecord \<Rightarrow> ActiveEntry" where
  "entryOf r =
     \<lparr>entryId = activeId r,
      entryName =
        orText (studentName r)
          (orStr (orEmpty (firstName r) @ '' '' @ orEmpty (lastName r))
             (orText (email r) ''Unknown'')),
      entryEmail = email r, entryTeamName = teamName r, entryTeamNumber = teamNumber r,
      entryCheckInDate = checkInDate r\<rparr>"

text \<open>\<open>ci > existing.checkInDate\<close> compares the time values; with a NaN on either
  side it is false.\<close>

definition dateAfter :: "jsdate \<Rightarrow> jsdate \<Rightarrow> bool" where
  "dateAfter a b =
     (case a of
        DateMs x \<Rightarrow> (case b of DateMs y \<Rightarrow> x > y | InvalidDate \<Rightarrow> False)
      | InvalidDate \<Rightarrow> False)"

definition displaces :: "jsdate option \<Rightarrow> ActiveEntry option \<Rightarrow> bool" where
  "displaces ci existing =
     (case existing of
        None \<Rightarrow> True
      | Some ex \<Rightarrow>
          (case ci of
             None \<Rightarrow> False
           | Some c \<Rightarrow>
               (case entryCheckInDate ex of None \<Rightarrow> True | Some x \<Rightarrow> dateAfter c x)))"

definition activeStep ::
  "(string \<times> ActiveEntry) list \<Rightarrow> StudentRecord \<Rightarrow> (string \<times> ActiveEntry) list" where
  "activeStep latest r =
     (if \<not> eligible r then latest
      else if displaces (checkInDate r) (map_of latest (activeId r))
        then mapSet (activeId r) (entryOf r) latest
      else latest)"

definition latestByKey :: "StudentRecord list \<Rightarrow> (string \<times> ActiveEntry) list" where
  "latestByKey students = foldl activeStep [] students"

definition activeCheckIns :: "env \<Rightarrow> StudentRecord list \<Rightarrow> ActiveEntry list" where
  "activeCheckIns e students =
     sortBy (\<lambda>a b. localeCompare e (entryName a) (entryName b) < 0)
       (map snd (latestByKey students))"

section \<open>Notions used in the statements\<close>

text \<open>
  The statements about the row parser speak of a cell that fills a recognized field:
  the normalized header is an entry of the table and the coercer of the field's kind
  yields a non-empty value (for a flag or a number: not null; for a date: a \<open>Date\<close>;
  for a text: a non-empty string). \<open>fillsInherited\<close> is the one other way in which the
  parser sets its flag \<open>hasMappedValue\<close>: a header that normalizes to \<open>constructor\<close>
  over a cell with a non-empty text.
\<close>

definition coercedNonEmpty :: "env \<Rightarrow> ColumnKey \<Rightarrow> raw \<Rightarrow> bool" where
  "coercedNonEmpty e f v =
     (if f \<in> set [CheckedIn, CheckedOut, IsAdult] then parseBooleanFlag v \<noteq> None
      else if f \<in> set [Age, Siblings, ParentsGuardians, YearsWithJsac, VisitsPastMonth,
                         VisitsPastQuarter, VisitsPastYear, ElapsedTime]
        then parseNumber e v \<noteq> None
      else if f \<in> set [FirstVisitDate, CheckInDate, CheckOutDate]
        then parseDateValue e v \<noteq> None
      else if f = Email then trim (toString e v) \<noteq> []
      else truthyText (textValue e v))"

definition fillsField :: "env \<Rightarrow> string \<times> raw \<Rightarrow> bool" where
  "fillsField e cell =
     (case map_of columnTable (normalizeHeaderKey (trim (fst cell))) of
        None \<Rightarrow> False
      | Some f \<Rightarrow> coercedNonEmpty e f (snd cell))"

definition fillsInherited :: "env \<Rightarrow> string \<times> raw \<Rightarrow> bool" where
  "fillsInherited e cell =
     (normalizeHeaderKey (trim (fst cell)) = ''constructor''
      \<and> truthyText (textValue e (snd cell)))"

text \<open>
  An environment for the examples: the local time zone is at a fixed offset from UTC,
  given in minutes. No example reaches the other parameters; they are set to fail
  (NaN, null, an invalid date) or to be empty.
\<close>

definition fixedZone :: "int \<Rightarrow> env" where
  "fixedZone offsetMinutes =
     \<lparr>finiteToString = (\<lambda>r. []), stringToNumber = (\<lambda>s. NaN), dateToString = (\<lambda>d. []),
      parse_date_code = (\<lambda>n. None), parseISO = (\<lambda>s. InvalidDate),
      dateParse = (\<lambda>s. InvalidDate), localTZA = (\<lambda>t isUTC. offsetMinutes * 60000),
      localeCompare = (\<lambda>a b. 0)\<rparr>"

text \<open>A record that holds a check-in date and nothing else.\<close>

definition checkInAt :: "int \<Rightarrow> StudentRecord" where
  "checkInAt t = emptyRecord\<lparr>checkInDate := Some (DateMs t)\<rparr>"

text \<open>The state of the header scan after some rows: nothing selected yet and no score
  of 2 or more so far, or the selected row has the greatest score so far and every
  row before it has a smaller one.\<close>

definition headerInv :: "env \<Rightarrow> raw list list \<Rightarrow> nat \<times> int \<Rightarrow> bool" where
  "headerInv e rows st =
     ((snd st = - 1 \<and> fst st = 0 \<and> (\<forall>j<length rows. rowScore e (rows ! j) < 2))
      \<or> (2 \<le> snd st \<and> fst st < length rows \<and> rowScore e (rows ! fst st) = snd st
          \<and> (\<forall>j<length rows. rowScore e (rows ! j) \<le> snd st)
          \<and> (\<forall>j<fst st. rowScore e (rows ! j) < snd st)))"

text \<open>
  A record takes part in the unique profiles when it passes the three guards of
  \<open>uniqueProfiles\<close>: it has a name, it has a valid check-in date, and its key has a
  character other than the separator.
\<close>

definition admissible :: "env \<Rightarrow> StudentRecord \<Rightarrow> bool" where
  "admissible e s =
     (recordName s \<noteq> [] \<and> validCheckIn s
      \<and> filter (\<lambda>c. c \<noteq> CHR ''|'') (profileKey e s) \<noteq> [])"

text \<open>Two visits of one student, on Wednesday 2024-01-03 and on Tuesday 2024-01-09,
  recorded with different county, zip code, school, grade and gender.\<close>

definition annFirst :: StudentRecord where
  "annFirst = (checkInAt 1704283200000)
     \<lparr>studentName := Some ''Ann'', schoolName := Some ''Ligon'',
      homeZipCode := Some ''27601'', county := Some ''Wake'', grade := Some ''7'',
      gender := Some ''F'', age := Some (Finite 12)\<rparr>"

definition annSecond :: StudentRecord where
  "annSecond = (checkInAt 1704801600000)
     \<lparr>studentName := Some ''Ann'', schoolName := Some ''Brogden'',
      homeZipCode := Some ''27701'', county := Some ''Durham'', grade := Some ''8'',
      gender := Some ''M'', age := Some (Finite 12)\<rparr>"

text \<open>Two visits under a name that is the separator of the profile key, with no age
  and no team.\<close>

definition barFirst :: StudentRecord where
  "barFirst = (checkInAt 1704283200000)\<lparr>studentName := Some ''|''\<rparr>"

definition barSecond :: StudentRecord where
  "barSecond = (checkInAt 1704801600000)\<lparr>studentName := Some ''|''\<rparr>"






text \<open>No record of the list holds an invalid date as its check-in date: a Student
  Record holds a timestamp or nothing.\<close>

definition validDates :: "StudentRecord list \<Rightarrow> bool" where
  "validDates students = list_all (\<lambda>r. checkInDate r \<noteq> Some InvalidDate) students"







text \<open>
  The statement about the timestamp pattern speaks of the 24-hour reading of the hour
  (\<open>12 AM\<close> is 0, \<open>12 PM\<close> is 12), of the stated offset in minutes, and of the
  instant at which a UTC clock shows the year, month, day, hour and minute of the
  fields: the days from the epoch to that day of that month of that year, and the
  time within the day. A clock read at this instant shows the fields again
  (\<open>utcWallTime_reads_back\<close> below); a month or a day outside the calendar is
  counted on into the following months.
\<close>

definition to24h :: "bool \<Rightarrow> int \<Rightarrow> int" where
  "to24h isAM hour = (if isAM then hour mod 12 else hour mod 12 + 12)"

definition utcWallTime :: "int \<Rightarrow> int \<Rightarrow> int \<Rightarrow> int \<Rightarrow> int \<Rightarrow> int" where
  "utcWallTime year month day hour minute =
     MakeDate (MakeDay year (month - 1) day) (MakeTime hour minute 0 0)"

text \<open>The days of a month of the calendar, the month counted from 1.\<close>

definition daysInMonth :: "int \<Rightarrow> int \<Rightarrow> int" where
  "daysInMonth year month =
     (if month = 2 then (if isLeapYear year then 29 else 28)
      else if month = 4 \<or> month = 6 \<or> month = 9 \<or> month = 11 then 30
      else 31)"

definition statedOffset :: "char \<Rightarrow> int \<Rightarrow> int \<Rightarrow> int" where
  "statedOffset sg tzH tzM = (if sg = CHR ''+'' then 1 else - 1) * (tzH * 60 + tzM)"

section \<open>Properties of the header normalizer\<close>

lemma keyChar_not_space: "isKeyChar c \<Longrightarrow> \<not> isWhiteSpace c"
  by (auto simp: isKeyChar_def isWhiteSpace_def)

lemma keyChar_lower: "isKeyChar c \<Longrightarrow> toLowerChar c = c"
  by (auto simp: isKeyChar_def toLowerChar_def Let_def)

lemma keyChar_plain:
  "isKeyChar c \<Longrightarrow> c \<noteq> CR \<and> c \<noteq> LF \<and> c \<noteq> CHR ''('' \<and> c \<noteq> CHR ''&''"
  by (auto simp: isKeyChar_def CR_def LF_def)

lemma trim_keyChars:
  assumes "\<forall>c \<in> set s. isKeyChar c"
  shows "trim s = s"
proof (cases s)
  case Nil
  then show ?thesis by (simp add: trim_def)
next
  case (Cons a as)
  with assms have h: "\<not> isWhiteSpace a" by (simp add: keyChar_not_space)
  from assms have "\<forall>c \<in> set (rev s). \<not> isWhiteSpace c"
    by (simp add: keyChar_not_space)
  then have r: "dropWhile isWhiteSpace (rev s) = rev s"
    by (cases "rev s") auto
  from Cons h have "dropWhile isWhiteSpace s = s" by simp
  with r show ?thesis by (simp add: trim_def)
qed

lemma toLowerCase_keyChars: "\<forall>c \<in> set s. isKeyChar c \<Longrightarrow> toLowerCase s = s"
  by (induction s) (auto simp: toLowerCase_def keyChar_lower)

lemma replaceNewlines_keyChars: "\<forall>c \<in> set s. isKeyChar c \<Longrightarrow> replaceNewlines s = s"
  by (induction s) (auto dest: keyChar_plain)

lemma stripParens_keyChars: "\<forall>c \<in> set s. isKeyChar c \<Longrightarrow> stripParens s = s"
  by (induction s) (auto dest: keyChar_plain)

lemma replaceAmp_keyChars: "\<forall>c \<in> set s. isKeyChar c \<Longrightarrow> replaceAmp s = s"
  by (induction s) (auto dest: keyChar_plain)

lemma normalizeHeaderKey_chars: "\<forall>c \<in> set (normalizeHeaderKey s). isKeyChar c"
proof -
  let ?f = "filter isKeyChar (replaceAmp (stripParens (replaceNewlines (toLowerCase s))))"
  have "\<forall>c \<in> set ?f. isKeyChar c" by simp
  then have "trim ?f = ?f" by (rule trim_keyChars)
  then show ?thesis by (simp add: normalizeHeaderKey_def)
qed

text \<open>
  C9. Header normalization is idempotent: normalizing a key that is already normalized
  returns it unchanged, for every input string.
\<close>

theorem normalizeHeaderKey_idempotent:
  "normalizeHeaderKey (normalizeHeaderKey s) = normalizeHeaderKey s"
proof -
  let ?k = "normalizeHeaderKey s"
  have k: "\<forall>c \<in> set ?k. isKeyChar c" by (rule normalizeHeaderKey_chars)
  have "filter isKeyChar ?k = ?k" using k by simp
  then show ?thesis
    unfolding normalizeHeaderKey_def [of ?k]
    by (simp add: toLowerCase_keyChars [OF k] replaceNewlines_keyChars [OF k]
        stripParens_keyChars [OF k] replaceAmp_keyChars [OF k] trim_keyChars [OF k])
qed

section \<open>Properties of the row parser\<close>

lemma columnTable_empty: "map_of columnTable [] = None"
  by code_simp

lemma columnTable_constructor: "map_of columnTable ''constructor'' = None"
  by code_simp

text \<open>The flag after a cell: what it was, or the cell fills a field of the table, or
  the cell is a non-empty text under a header that normalizes to \<open>constructor\<close>.\<close>

lemma parseCell_flag:
  "snd (parseCell e (r, b) cell) = (b \<or> fillsField e cell \<or> fillsInherited e cell)"
proof (cases "normalizeHeaderKey (trim (fst cell)) = []")
  case True
  then show ?thesis
    by (simp add: parseCell_def fillsField_def fillsInherited_def columnTable_empty)
next
  case False
  show ?thesis
  proof (cases "map_of columnTable (normalizeHeaderKey (trim (fst cell)))")
    case None
    with False show ?thesis
      by (simp add: parseCell_def fillsField_def fillsInherited_def columnMap_def Let_def)
  next
    case (Some f)
    then have nc: "normalizeHeaderKey (trim (fst cell)) \<noteq> ''constructor''"
      using columnTable_constructor by auto
    from Some False nc show ?thesis
      by (cases f)
        (simp_all add: parseCell_def fillsField_def fillsInherited_def columnMap_def Let_def
          coercedNonEmpty_def truthyText_def)
  qed
qed

lemma foldl_parseCell_flag:
  "snd (foldl (parseCell e) st row)
     = (snd st \<or> list_ex (fillsField e) row \<or> list_ex (fillsInherited e) row)"
proof (induction row arbitrary: st)
  case Nil
  then show ?case by simp
next
  case (Cons c row)
  show ?case
    using Cons.IH [of "parseCell e st c"] parseCell_flag [of e "fst st" "snd st" c]
    by auto
qed

text \<open>
  What the row parser does, for every row: it returns a record exactly when some cell
  fills a field of the table or some cell has a header that normalizes to
  \<open>constructor\<close> and a non-empty text. Without the second alternative this is the
  statement of C8.
\<close>

lemma parseRow_retained_iff:
  "(parseRow e row \<noteq> None)
     = (list_ex (fillsField e) row \<or> list_ex (fillsInherited e) row)"
  by (simp add: parseRow_def Let_def foldl_parseCell_flag)

lemma parseCell_unrecognized:
  "columnMap (normalizeHeaderKey (trim (fst c))) = None \<Longrightarrow> parseCell e st c = st"
  by (simp add: parseCell_def Let_def)

lemma foldl_parseCell_unrecognized:
  "list_all (\<lambda>c. columnMap (normalizeHeaderKey (trim (fst c))) = None) cs
     \<Longrightarrow> foldl (parseCell e) st cs = st"
  by (induction cs arbitrary: st) (simp_all add: parseCell_unrecognized)

lemma parseCell_false_flag:
  assumes "columnMap (normalizeHeaderKey (trim key)) = Some (Field f)"
    and "f = CheckedIn \<or> f = CheckedOut \<or> f = IsAdult"
    and "parseBooleanFlag v = Some False"
  shows "parseCell e (r, b) (key, v) = (setFlag f (Some False) r, True)"
proof -
  from assms(1) have "normalizeHeaderKey (trim key) \<noteq> []"
    using columnTable_empty by (auto simp: columnMap_def)
  with assms show ?thesis
    by (elim disjE) (simp_all add: parseCell_def Let_def del: not_None_eq)
qed

lemma composeName_flag:
  "f = CheckedIn \<or> f = CheckedOut \<or> f = IsAdult
     \<Longrightarrow> composeName (setFlag f v emptyRecord) = setFlag f v emptyRecord"
  by (elim disjE)
    (simp_all add: composeName_def emptyRecord_def truthyText_def joinSpace_def trim_def)

text \<open>
  C8. The claim: row parsing returns the record exactly when at least one recognized
  field was coerced to a non-empty value, and a row in which every cell has an
  unrecognized header yields no record. The code at the row with the single cell
  \<open>x\<close> under the header \<open>Constructor\<close>, which is no entry of the table: a record is
  returned. It has no field set, only the property stored under the printed function.
\<close>

theorem parseRow_constructor_header:
  "parseRow e [(''Constructor'', RStr ''x'')] = Some (emptyRecord\<lparr>ctorProp := Some ''x''\<rparr>)
   \<and> map_of columnTable (normalizeHeaderKey (trim ''Constructor'')) = None"
  by code_simp

text \<open>
  C5. The claim: for every text-typed field, email included, an absent raw value
  (null or undefined) yields an absent field and does not count as a mapped value.
  The code at a row whose only cell is a null under the header \<open>Email\<close>: the field
  holds the text \<open>null\<close> and the row is kept. Under a header of the default text
  branch the same cell leaves the field absent and the row is dropped.
\<close>

theorem parseRow_email_null:
  "parseRow e [(''Email'', RNull)] = Some (emptyRecord\<lparr>email := Some ''null''\<rparr>)
   \<and> parseRow e [(''Email'', RUndefined)] = Some (emptyRecord\<lparr>email := Some ''undefined''\<rparr>)
   \<and> parseRow e [(''County'', RNull)] = None"
  by code_simp

text \<open>
  C10. A flag that coerces to false counts as a mapped value: a row whose only
  recognized cell is one of the fields \<open>checkedIn\<close>, \<open>checkedOut\<close>, \<open>isAdult\<close> with a
  value that coerces to false is kept, as the record with that flag false and nothing
  else set. The other cells \<open>pre\<close> and \<open>post\<close> of the row are any cells whose header the
  lookup does not find.
\<close>

theorem parseRow_false_flag_retained:
  assumes "list_all (\<lambda>c. columnMap (normalizeHeaderKey (trim (fst c))) = None) (pre @ post)"
    and "columnMap (normalizeHeaderKey (trim key)) = Some (Field f)"
    and "f = CheckedIn \<or> f = CheckedOut \<or> f = IsAdult"
    and "parseBooleanFlag v = Some False"
  shows "parseRow e (pre @ (key, v) # post) = Some (setFlag f (Some False) emptyRecord)"
proof -
  from assms(1) have pre: "foldl (parseCell e) (emptyRecord, False) pre = (emptyRecord, False)"
    and post: "\<And>st. foldl (parseCell e) st post = st"
    by (simp_all add: foldl_parseCell_unrecognized)
  have "foldl (parseCell e) (emptyRecord, False) (pre @ (key, v) # post)
          = (setFlag f (Some False) emptyRecord, True)"
    by (simp add: pre post parseCell_false_flag [OF assms(2,3,4)])
  then show ?thesis
    by (simp add: parseRow_def Let_def composeName_flag [OF assms(3)])
qed

theorem parseRow_false_flag_retained_witness:
  "parseRow (fixedZone 0) [(''Notes'', RStr ''hello''), (''Checked In'', RStr ''no'')]
     = Some (emptyRecord\<lparr>checkedIn := Some False\<rparr>)"
proof -
  have a: "list_all (\<lambda>c. columnMap (normalizeHeaderKey (trim (fst c))) = None)
             ([(''Notes'', RStr ''hello'')] @ [])"
    by code_simp
  have b: "columnMap (normalizeHeaderKey (trim ''Checked In'')) = Some (Field CheckedIn)"
    by code_simp
  have c: "parseBooleanFlag (RStr ''no'') = Some False"
    by code_simp
  show ?thesis
    using parseRow_false_flag_retained [OF a b _ c, of "fixedZone 0"] by simp
qed

section \<open>Properties of the header-row detector\<close>

lemma rowScore_no_labels: "rowLabels e row = [] \<Longrightarrow> rowScore e row = 0"
  by (simp add: rowScore_def)

lemma headerStep_score:
  "headerStep e (bi, bs) (i, row)
     = (if rowScore e row > bs \<and> rowScore e row \<ge> 2 then (i, rowScore e row) else (bi, bs))"
  by (simp add: headerStep_def Let_def rowScore_no_labels)

lemma headerInv_scan: "headerInv e rows (foldl (headerStep e) (0, - 1) (enumerate 0 rows))"
proof (induction rows rule: rev_induct)
  case Nil
  then show ?case by (simp add: headerInv_def)
next
  case (snoc row rows)
  obtain bi bs where st: "foldl (headerStep e) (0, - 1) (enumerate 0 rows) = (bi, bs)"
    by (cases "foldl (headerStep e) (0, - 1) (enumerate 0 rows)")
  have step: "foldl (headerStep e) (0, - 1) (enumerate 0 (rows @ [row]))
                = headerStep e (bi, bs) (length rows, row)"
    by (simp add: enumerate_append_eq st)
  from snoc st have inv: "headerInv e rows (bi, bs)" by simp
  show ?case
  proof (cases "rowScore e row > bs \<and> rowScore e row \<ge> 2")
    case True
    with inv show ?thesis
      unfolding step headerStep_score headerInv_def
      by (auto simp: nth_append less_Suc_eq)
  next
    case False
    with inv show ?thesis
      unfolding step headerStep_score headerInv_def
      by (auto simp: nth_append less_Suc_eq)
  qed
qed

text \<open>The selection rule of the detector, for every sheet, in terms of the score the
  code gives a row: with no score of 2 or more the index is 0; otherwise the selected
  row has the greatest score and every row before it has a smaller one.\<close>

lemma bestHeaderIndex_default:
  assumes "\<forall>j<length rows. rowScore e (rows ! j) < 2"
  shows "bestHeaderIndex e rows = 0"
  using headerInv_scan [of e rows] assms
  by (fastforce simp: headerInv_def bestHeaderIndex_def)

lemma bestHeaderIndex_selects:
  assumes "j < length rows" and "2 \<le> rowScore e (rows ! j)"
  shows "bestHeaderIndex e rows < length rows
         \<and> (\<forall>k<length rows. rowScore e (rows ! k) \<le> rowScore e (rows ! bestHeaderIndex e rows))
         \<and> (\<forall>k<bestHeaderIndex e rows.
               rowScore e (rows ! k) < rowScore e (rows ! bestHeaderIndex e rows))"
  using headerInv_scan [of e rows] assms
  by (fastforce simp: headerInv_def bestHeaderIndex_def)

text \<open>The score of a row counts the labels whose normalized key is an entry of the
  table, and the labels that normalize to \<open>constructor\<close>.\<close>

lemma foldl_scoreLabel:
  "foldl scoreLabel c ls
     = c + int (length (filter (\<lambda>l. map_of columnTable (normalizeHeaderKey l) \<noteq> None
                                   \<or> normalizeHeaderKey l = ''constructor'') ls))"
proof (induction ls arbitrary: c)
  case Nil
  then show ?case by simp
next
  case (Cons l ls)
  have "scoreLabel c l
          = (if map_of columnTable (normalizeHeaderKey l) \<noteq> None
                \<or> normalizeHeaderKey l = ''constructor'' then c + 1 else c)"
    by (auto simp: scoreLabel_def columnMap_def Let_def columnTable_empty split: option.splits)
  with Cons show ?case by simp
qed

lemma rowScore_counts:
  "rowScore e row
     = int (length (filter (\<lambda>l. map_of columnTable (normalizeHeaderKey l) \<noteq> None
                                 \<or> normalizeHeaderKey l = ''constructor'') (rowLabels e row)))"
  by (simp add: rowScore_def foldl_scoreLabel)

text \<open>The example of the claim: a title banner over a row of five recognized headers.\<close>

lemma bestHeaderIndex_banner:
  "bestHeaderIndex e
     [[RStr ''JSAC Roster'', RNull, RNull, RNull, RNull],
      [RStr ''Name'', RStr ''Age'', RStr ''Grade'', RStr ''County'', RStr ''Gender''],
      [RStr ''Ann'', RNum (Finite 12), RStr ''7'', RStr ''Wake'', RStr ''F'']] = 1"
  by code_simp

text \<open>
  C7. The claim: the detector selects the row with the greatest number of recognized
  fields if that number is at least 2, and row 0 otherwise. The code on a sheet whose
  second row holds two cells that normalize to \<open>constructor\<close>: no cell of the sheet is
  an entry of the table, so every row has no recognized field, and the code selects
  row 1, because its lookup finds the inherited property.
\<close>

theorem bestHeaderIndex_constructor_cells:
  "bestHeaderIndex e [[RStr ''Roster''], [RStr ''Constructor'', RStr ''constructor'']] = 1
   \<and> map_of columnTable (normalizeHeaderKey ''Roster'') = None
   \<and> map_of columnTable (normalizeHeaderKey ''Constructor'') = None
   \<and> map_of columnTable (normalizeHeaderKey ''constructor'') = None"
  by code_simp

section \<open>Properties of the weekly buckets\<close>

text \<open>The instants of the examples: noon UTC on Wednesday 2024-01-03 and on Tuesday
  2024-01-09 (month 0 is January, day 3 of the week is Wednesday), and 17:00 UTC on
  that Wednesday, which is noon five hours west of UTC.\<close>

lemma example_instants:
  "(YearFromTime 1704283200000, MonthFromTime 1704283200000, DateFromTime 1704283200000,
    WeekDay 1704283200000) = (2024, 0, 3, 3)
   \<and> (YearFromTime 1704801600000, MonthFromTime 1704801600000, DateFromTime 1704801600000,
      WeekDay 1704801600000) = (2024, 0, 9, 2)
   \<and> (YearFromTime 1704301200000, MonthFromTime 1704301200000, DateFromTime 1704301200000,
      WeekDay 1704301200000) = (2024, 0, 3, 3)"
  by code_simp

text \<open>The key of the week of that Wednesday is the midnight that begins Monday
  2024-01-01.\<close>

lemma weekStartMs_wednesday:
  "weekStartMs (fixedZone 0) (DateMs 1704283200000) = DateMs 1704067200000
   \<and> (YearFromTime 1704067200000, MonthFromTime 1704067200000, DateFromTime 1704067200000,
      WeekDay 1704067200000) = (2024, 0, 1, 1)"
  by code_simp

text \<open>
  C1. The claim: the weekly buckets start on Sunday and are labeled Sunday through
  Saturday, so that a check-in on Wednesday 2024-01-03 is counted under
  \<open>12/31/2023 - 1/6/2024\<close> and one on Tuesday 2024-01-09 under \<open>1/7/2024 - 1/13/2024\<close>.
  The code, in a browser whose time zone is UTC: the buckets run from Monday to
  Sunday, \<open>1/1/2024 - 1/7/2024\<close> and \<open>1/8/2024 - 1/14/2024\<close>.
\<close>

theorem weekCounts_monday_weeks:
  "weekCounts (fixedZone 0) [checkInAt 1704283200000] = [(''1/1/2024 - 1/7/2024'', 1)]
   \<and> weekCounts (fixedZone 0) [checkInAt 1704801600000] = [(''1/8/2024 - 1/14/2024'', 1)]"
  by code_simp

text \<open>West of UTC the label is one more week back: \<open>getWeekRange\<close> reads the key, a UTC
  midnight, in local time, where it is the evening of the Sunday before, and moves
  that Sunday to the Monday six days earlier. Five hours west of UTC, the check-in on
  Wednesday 2024-01-03 is counted under a week that does not contain it.\<close>

lemma weekCounts_west_of_utc:
  "weekCounts (fixedZone (- 300)) [checkInAt 1704301200000]
     = [(''12/25/2023 - 12/31/2023'', 1)]"
  by code_simp

section \<open>Properties of the unique profiles\<close>

text \<open>
  C2. The claim: the profile key is a lowercased composite of name, age, team name and
  team number, so that two eligible records that differ only in letter case have one
  key and make one profile. The code lowercases the name (and the printed age) only:
  two records that differ in the case of the name and of the team name have two keys
  and make two profiles.
\<close>

theorem uniqueProfiles_team_case:
  "profileKey e (checkInAt 0\<lparr>studentName := Some ''Ann'', teamName := Some ''Robots''\<rparr>)
     = ''ann|||Robots|''
   \<and> profileKey e (checkInAt 0\<lparr>studentName := Some ''ann'', teamName := Some ''robots''\<rparr>)
     = ''ann|||robots|''
   \<and> map fst (uniqueProfiles e
        [checkInAt 0\<lparr>studentName := Some ''Ann'', teamName := Some ''Robots''\<rparr>,
         checkInAt 0\<lparr>studentName := Some ''ann'', teamName := Some ''robots''\<rparr>])
     = [''ann|||Robots|'', ''ann|||robots|'']"
  by code_simp


lemma mapSet_fresh: "map_of m k = None \<Longrightarrow> mapSet k v m = m @ [(k, v)]"
  by (induction m) (auto split: if_splits)

lemma profileStep_admissible:
  "profileStep e m s
     = (if admissible e s \<and> map_of m (profileKey e s) = None
        then m @ [(profileKey e s, profileOf s)] else m)"
  by (auto simp: profileStep_def admissible_def Let_def mapSet_fresh)

lemma foldl_profileStep_lookup:
  "map_of (foldl (profileStep e) m students) k
     = (case map_of m k of
          Some p \<Rightarrow> Some p
        | None \<Rightarrow> map_option profileOf
                    (find (\<lambda>s. admissible e s \<and> profileKey e s = k) students))"
proof (induction students arbitrary: m)
  case Nil
  then show ?case by (simp split: option.splits)
next
  case (Cons s students)
  have step: "map_of (profileStep e m s) k
                = (case map_of m k of
                     Some p \<Rightarrow> Some p
                   | None \<Rightarrow> if admissible e s \<and> profileKey e s = k
                             then Some (profileOf s) else None)"
    by (auto simp: profileStep_admissible map_add_def split: option.splits)
  have "map_of (foldl (profileStep e) m (s # students)) k
          = map_of (foldl (profileStep e) (profileStep e m s) students) k"
    by simp
  also have "\<dots> = (case map_of (profileStep e m s) k of
                       Some p \<Rightarrow> Some p
                     | None \<Rightarrow> map_option profileOf
                         (find (\<lambda>s. admissible e s \<and> profileKey e s = k) students))"
    by (rule Cons.IH)
  also have "\<dots> = (case map_of m k of
                       Some p \<Rightarrow> Some p
                     | None \<Rightarrow> map_option profileOf
                         (find (\<lambda>s. admissible e s \<and> profileKey e s = k) (s # students)))"
    unfolding step by (auto split: option.splits)
  finally show ?case .
qed

lemma find_append_first:
  "find P (xs @ ys) = (case find P xs of None \<Rightarrow> find P ys | Some x \<Rightarrow> Some x)"
  by (induction xs) auto

lemma foldl_profileStep_distinct:
  "distinct (map fst m) \<Longrightarrow> distinct (map fst (foldl (profileStep e) m students))"
proof (induction students arbitrary: m)
  case Nil
  then show ?case by simp
next
  case (Cons s students)
  have "distinct (map fst (profileStep e m s))"
    using Cons.prems
    by (auto simp: profileStep_admissible map_of_eq_None_iff)
  then show ?case by (simp add: Cons.IH)
qed

lemma distinct_one_entry:
  "distinct (map fst m) \<Longrightarrow> map_of m k = Some p
     \<Longrightarrow> filter (\<lambda>kp. fst kp = k) m = [(k, p)]"
proof (induction m)
  case Nil
  then show ?case by simp
next
  case (Cons x m)
  show ?case
  proof (cases "fst x = k")
    case True
    with Cons.prems have "k \<notin> fst ` set m" by simp
    then have "\<forall>y \<in> set m. fst y \<noteq> k" by auto
    then have "filter (\<lambda>kp. fst kp = k) m = []" by (simp add: filter_empty_conv)
    with True Cons.prems show ?thesis by (cases x) auto
  next
    case False
    with Cons show ?thesis by (cases x) auto
  qed
qed

lemma profileKey_same:
  assumes "recordName b = recordName a" "age b = age a" "teamName b = teamName a"
    "teamNumber b = teamNumber a"
  shows "profileKey e b = profileKey e a"
  using assms by (simp add: profileKey_def)

text \<open>
  C6. Deduplication is first-write-wins. As stated (two records with identical name,
  age and team fields and different, valid check-in dates make exactly one profile),
  it fails for two records whose name is the separator of the key and that have no
  age and no team: they have a name and valid check-in dates, their key consists of
  separators only, and the guard on the key skips them, so no profile is made.
\<close>

theorem uniqueProfiles_separator_name_counterexample:
  "recordName barFirst = ''|'' \<and> recordName barSecond = ''|''
   \<and> age barFirst = age barSecond
   \<and> teamName barFirst = teamName barSecond
   \<and> teamNumber barFirst = teamNumber barSecond
   \<and> checkInDate barFirst = Some (DateMs 1704283200000)
   \<and> checkInDate barSecond = Some (DateMs 1704801600000)
   \<and> uniqueProfiles (fixedZone 0) [barFirst, barSecond] = []"
  by code_simp

text \<open>
  C6, amended. Two records with identical name, age, team name and team number,
  different and valid check-in dates, a non-empty name and a key that has a character
  other than the separator make exactly one profile, and it holds the name, county,
  zip code, school, age, grade and gender of the first record: alone they give this
  one profile, and in any list where no admissible record of the same key comes
  before them the map has exactly one entry under their key, this profile.
\<close>

theorem uniqueProfiles_first_wins:
  assumes "recordName b = recordName a" and "age b = age a"
    and "teamName b = teamName a" and "teamNumber b = teamNumber a"
    and "checkInDate a = Some (DateMs ta)" and "checkInDate b = Some (DateMs tb)"
    and "ta \<noteq> tb"
    and "recordName a \<noteq> []"
    and "filter (\<lambda>c. c \<noteq> CHR ''|'') (profileKey e a) \<noteq> []"
  shows "map snd (uniqueProfiles e [a, b])
           = [\<lparr>profileName = recordName a, profileCounty = county a,
               profileHomeZipCode = homeZipCode a, profileSchoolName = schoolName a,
               profileAge = age a, profileGrade = grade a, profileGender = gender a\<rparr>]
         \<and> (\<forall>pre mid post.
               list_all (\<lambda>s. \<not> (admissible e s \<and> profileKey e s = profileKey e a)) pre
               \<longrightarrow> map snd (filter (\<lambda>kp. fst kp = profileKey e a)
                              (uniqueProfiles e (pre @ a # mid @ b # post)))
                   = [\<lparr>profileName = recordName a, profileCounty = county a,
                       profileHomeZipCode = homeZipCode a, profileSchoolName = schoolName a,
                       profileAge = age a, profileGrade = grade a,
                       profileGender = gender a\<rparr>])"
proof -
  let ?p = "\<lparr>profileName = recordName a, profileCounty = county a,
             profileHomeZipCode = homeZipCode a, profileSchoolName = schoolName a,
             profileAge = age a, profileGrade = grade a, profileGender = gender a\<rparr>"
  have po: "profileOf a = ?p"
    by (simp add: profileOf_def)
  have adm: "admissible e a"
    using assms(5,8,9) by (simp add: admissible_def validCheckIn_def isValidDate_def)
  have key: "profileKey e b = profileKey e a"
    using assms(1-4) by (rule profileKey_same)
  have "uniqueProfiles e [a, b] = [(profileKey e a, profileOf a)]"
    using adm by (simp add: uniqueProfiles_def profileStep_admissible key)
  then have two: "map snd (uniqueProfiles e [a, b]) = [?p]"
    by (simp add: po)
  have many: "map snd (filter (\<lambda>kp. fst kp = profileKey e a)
                (uniqueProfiles e (pre @ a # mid @ b # post))) = [?p]"
    if pre: "list_all (\<lambda>s. \<not> (admissible e s \<and> profileKey e s = profileKey e a)) pre"
    for pre mid post
  proof -
    from pre have "find (\<lambda>s. admissible e s \<and> profileKey e s = profileKey e a) pre = None"
      by (simp add: find_None_iff list_all_iff)
    then have "find (\<lambda>s. admissible e s \<and> profileKey e s = profileKey e a)
                 (pre @ a # mid @ b # post) = Some a"
      using adm by (simp add: find_append_first)
    then have "map_of (uniqueProfiles e (pre @ a # mid @ b # post)) (profileKey e a)
                 = Some (profileOf a)"
      unfolding uniqueProfiles_def foldl_profileStep_lookup by simp
    moreover have "distinct (map fst (uniqueProfiles e (pre @ a # mid @ b # post)))"
      unfolding uniqueProfiles_def by (rule foldl_profileStep_distinct) simp
    ultimately have "filter (\<lambda>kp. fst kp = profileKey e a)
                       (uniqueProfiles e (pre @ a # mid @ b # post))
                     = [(profileKey e a, profileOf a)]"
      by (rule distinct_one_entry [rotated])
    then show ?thesis by (simp add: po)
  qed
  from two many show ?thesis by blast
qed

theorem uniqueProfiles_first_wins_witness:
  "recordName annSecond = recordName annFirst \<and> age annSecond = age annFirst
   \<and> checkInDate annFirst = Some (DateMs 1704283200000)
   \<and> checkInDate annSecond = Some (DateMs 1704801600000)
   \<and> county annSecond = Some ''Durham'' \<and> homeZipCode annSecond = Some ''27701''
   \<and> schoolName annSecond = Some ''Brogden'' \<and> grade annSecond = Some ''8''
   \<and> gender annSecond = Some ''M''
   \<and> map snd (uniqueProfiles (fixedZone 0) [annFirst, annSecond])
       = [\<lparr>profileName = ''Ann'', profileCounty = Some ''Wake'',
           profileHomeZipCode = Some ''27601'', profileSchoolName = Some ''Ligon'',
           profileAge = Some (Finite 12), profileGrade = Some ''7'',
           profileGender = Some ''F''\<rparr>]"
proof -
  have h1: "recordName annSecond = recordName annFirst" by code_simp
  have h2: "age annSecond = age annFirst" by code_simp
  have h3: "teamName annSecond = teamName annFirst" by code_simp
  have h4: "teamNumber annSecond = teamNumber annFirst" by code_simp
  have h5: "checkInDate annFirst = Some (DateMs 1704283200000)" by code_simp
  have h6: "checkInDate annSecond = Some (DateMs 1704801600000)" by code_simp
  have h7: "(1704283200000 :: int) \<noteq> 1704801600000" by simp
  have h8: "recordName annFirst \<noteq> []" by code_simp
  have h9: "filter (\<lambda>c. c \<noteq> CHR ''|'') (profileKey (fixedZone 0) annFirst) \<noteq> []"
    by code_simp
  have f: "recordName annFirst = ''Ann''" "county annFirst = Some ''Wake''"
    "homeZipCode annFirst = Some ''27601''" "schoolName annFirst = Some ''Ligon''"
    "age annFirst = Some (Finite 12)" "grade annFirst = Some ''7''"
    "gender annFirst = Some ''F''"
    by code_simp+
  have s: "county annSecond = Some ''Durham''" "homeZipCode annSecond = Some ''27701''"
    "schoolName annSecond = Some ''Brogden''" "grade annSecond = Some ''8''"
    "gender annSecond = Some ''M''"
    by code_simp+
  from uniqueProfiles_first_wins [OF h1 h2 h3 h4 h5 h6 h7 h8 h9]
  have "map snd (uniqueProfiles (fixedZone 0) [annFirst, annSecond])
          = [\<lparr>profileName = recordName annFirst, profileCounty = county annFirst,
              profileHomeZipCode = homeZipCode annFirst,
              profileSchoolName = schoolName annFirst, profileAge = age annFirst,
              profileGrade = grade annFirst, profileGender = gender annFirst\<rparr>]"
    by (rule conjunct1)
  with h1 h2 h5 h6 f s show ?thesis by simp
qed

section \<open>Properties of the active check-ins\<close>














section \<open>Properties of the date coercion\<close>

lemma digitValue_le: "isDigit c \<Longrightarrow> digitValue c \<le> 9"
  by (auto simp: isDigit_def digitValue_def Let_def)

lemma digitsToNat_snoc: "digitsToNat (s @ [c]) = 10 * digitsToNat s + digitValue c"
  by (simp add: digitsToNat_def)

lemma digitsToNat_bound: "list_all isDigit s \<Longrightarrow> digitsToNat s < 10 ^ length s"
proof (induction s rule: rev_induct)
  case Nil
  then show ?case by (simp add: digitsToNat_def)
next
  case (snoc c s)
  then have "digitsToNat s < 10 ^ length s" and "digitValue c \<le> 9"
    by (simp_all add: digitValue_le)
  then show ?case by (simp add: digitsToNat_snoc)
qed

lemma DayFromYear_bounds:
  assumes "- 1 \<le> y" "y \<le> 10007"
  shows "- 720000 \<le> DayFromYear y \<and> DayFromYear y \<le> 2940000"
proof -
  have q4: "(- 1970) div 4 \<le> (y - 1969) div 4" "(y - 1969) div 4 \<le> 8038 div 4"
    using assms by (intro zdiv_mono1; simp)+
  have q100: "(- 1902) div 100 \<le> (y - 1901) div 100" "(y - 1901) div 100 \<le> 8106 div 100"
    using assms by (intro zdiv_mono1; simp)+
  have q400: "(- 1602) div 400 \<le> (y - 1601) div 400" "(y - 1601) div 400 \<le> 8406 div 400"
    using assms by (intro zdiv_mono1; simp)+
  from q4 q100 q400 assms show ?thesis
    unfolding DayFromYear_def by simp
qed

lemma monthStart_bounds: "0 \<le> monthStart m l \<and> monthStart m l \<le> 335"
  by (simp add: monthStart_def Let_def)

lemma MakeDay_bounds:
  assumes "0 \<le> y" "y < 10000" "0 \<le> mo" "mo < 100" "0 \<le> d" "d < 100"
  shows "- 730000 \<le> MakeDay y (mo - 1) d \<and> MakeDay y (mo - 1) d \<le> 2950000"
proof -
  have m: "- 1 \<le> (mo - 1) div 12" "(mo - 1) div 12 \<le> 8" using assms(3,4) by linarith+
  then have "- 1 \<le> y + (mo - 1) div 12" "y + (mo - 1) div 12 \<le> 10007"
    using assms(1,2) by linarith+
  then have "- 720000 \<le> DayFromYear (y + (mo - 1) div 12)
             \<and> DayFromYear (y + (mo - 1) div 12) \<le> 2940000"
    by (rule DayFromYear_bounds)
  moreover note monthStart_bounds [of "(mo - 1) mod 12" "isLeapYear (y + (mo - 1) div 12)"]
  ultimately show ?thesis
    using assms(5,6) by (simp add: MakeDay_def Let_def)
qed

lemma utcWallTime_bounds:
  assumes "0 \<le> y" "y < 10000" "0 \<le> mo" "mo < 100" "0 \<le> d" "d < 100"
    "0 \<le> h" "h < 24" "0 \<le> mi" "mi < 100"
  shows "\<bar>utcWallTime y mo d h mi\<bar> \<le> 300000000000000"
proof -
  from MakeDay_bounds [OF assms(1-6)]
  have d: "- 730000 \<le> MakeDay y (mo - 1) d" "MakeDay y (mo - 1) d \<le> 2950000"
    by simp_all
  have "- 300000000000000 \<le> utcWallTime y mo d h mi"
    using d assms(7-10) unfolding utcWallTime_def MakeDate_def MakeTime_def msPerDay_def
    by linarith
  moreover have "utcWallTime y mo d h mi \<le> 300000000000000"
    using d assms(7-10) unfolding utcWallTime_def MakeDate_def MakeTime_def msPerDay_def
    by linarith
  ultimately show ?thesis by (simp add: abs_le_iff)
qed


lemma digit_plain:
  "isDigit c \<Longrightarrow> \<not> isWhiteSpace c \<and> c \<noteq> CHR '':'' \<and> c \<noteq> CHR ''-''"
  by (auto simp: isDigit_def isWhiteSpace_def)

lemma takeDigits_append:
  "length ds = n \<Longrightarrow> list_all isDigit ds \<Longrightarrow> takeDigits n (ds @ rest) = Some (ds, rest)"
  by (simp add: takeDigits_def)

lemma takeHour_colon:
  assumes "list_all isDigit h" and "length h = 1 \<or> length h = 2"
  shows "takeHour (h @ CHR '':'' # rest) = Some (h, CHR '':'' # rest)"
proof -
  have nd: "\<not> isDigit (CHR '':'')" by (simp add: isDigit_def)
  from assms(2) show ?thesis
  proof
    assume "length h = 2"
    with assms(1) show ?thesis by (simp add: takeHour_def takeDigits_append)
  next
    assume "length h = 1"
    then obtain c where "h = [c]" by (cases h) auto
    with assms(1) nd show ?thesis by (simp add: takeHour_def takeDigits_def)
  qed
qed

lemma dropWhile_spaces:
  "list_all isWhiteSpace w \<Longrightarrow> \<not> isWhiteSpace c
     \<Longrightarrow> dropWhile isWhiteSpace (w @ c # rest) = c # rest"
  by (simp add: list_all_iff)

lemma spaces1_append:
  assumes "w \<noteq> []" and "list_all isWhiteSpace w" and "\<not> isWhiteSpace c"
  shows "spaces1 (w @ c # rest) = Some (c # rest)"
proof -
  from assms(1) obtain x xs where w: "w = x # xs" by (cases w) auto
  with assms(2) have "isWhiteSpace x" "list_all isWhiteSpace xs" by simp_all
  with w assms(3) show ?thesis by (simp add: spaces1_def dropWhile_spaces)
qed

lemma trim_padded:
  assumes "list_all isWhiteSpace w0" and "list_all isWhiteSpace w4"
    and "\<not> isWhiteSpace c" and "\<not> isWhiteSpace z"
  shows "trim (w0 @ (c # body @ [z]) @ w4) = c # body @ [z]"
proof -
  have "dropWhile isWhiteSpace (w0 @ (c # body @ [z]) @ w4) = c # body @ [z] @ w4"
    using assms(1,3) dropWhile_spaces [of w0 c "body @ [z] @ w4"] by simp
  moreover have "rev (c # body @ [z] @ w4) = rev w4 @ z # rev body @ [c]" by simp
  moreover have "dropWhile isWhiteSpace (rev w4 @ z # rev body @ [c]) = z # rev body @ [c]"
    using assms(2,4) by (intro dropWhile_spaces) (simp_all add: list_all_iff)
  ultimately show ?thesis by (simp add: trim_def)
qed

lemma upper_am:
  "a \<in> set ''APap'' \<Longrightarrow> m \<in> set ''Mm''
     \<Longrightarrow> (map toUpperChar [a, m] = ''AM'') = (a \<in> set ''Aa'')"
proof -
  have u: "toUpperChar (CHR ''A'') = CHR ''A''" "toUpperChar (CHR ''a'') = CHR ''A''"
    "toUpperChar (CHR ''P'') = CHR ''P''" "toUpperChar (CHR ''p'') = CHR ''P''"
    "toUpperChar (CHR ''M'') = CHR ''M''" "toUpperChar (CHR ''m'') = CHR ''M''"
    by code_simp+
  assume "a \<in> set ''APap''" "m \<in> set ''Mm''"
  then show ?thesis using u by auto
qed


lemma matchStamp_fields:
  assumes dg: "list_all isDigit y" "list_all isDigit mo" "list_all isDigit d"
      "list_all isDigit h" "list_all isDigit mi" "list_all isDigit zh" "list_all isDigit zm"
    and ln: "length y = 4" "length mo = 2" "length d = 2" "length h = 1 \<or> length h = 2"
      "length mi = 2" "length zh = 2" "length zm = 2"
    and ws: "list_all isWhiteSpace w1" "w1 \<noteq> []" "list_all isWhiteSpace w2"
      "list_all isWhiteSpace w3" "w3 \<noteq> []"
    and ap: "a \<in> set ''APap''" "m \<in> set ''Mm''"
    and sg: "sg = CHR ''+'' \<or> sg = CHR ''-''"
  shows "matchStamp (y @ ''-'' @ mo @ ''-'' @ d @ w1 @ h @ '':'' @ mi @ w2 @ [a, m] @ w3
                     @ [sg] @ zh @ '':'' @ zm)
           = Some \<lparr>g1 = y, g2 = mo, g3 = d, g4 = h, g5 = mi, g6 = [a, m], g7 = [sg],
                   g8 = zh, g9 = zm\<rparr>"
proof -
  from dg(4) ln(4) obtain h1 hr where h: "h = h1 # hr" and h1: "\<not> isWhiteSpace h1"
    by (cases h) (auto simp: digit_plain)
  from ap(1) have a: "\<not> isWhiteSpace a" by (auto simp: isWhiteSpace_def)
  from sg have s: "\<not> isWhiteSpace sg" by (auto simp: isWhiteSpace_def)
  let ?s12 = "zh @ CHR '':'' # zm"
  let ?s10 = "w3 @ sg # ?s12"
  let ?s9 = "w2 @ a # m # ?s10"
  let ?s7 = "CHR '':'' # mi @ ?s9"
  let ?s5 = "w1 @ h @ ?s7"
  have e15: "takeDigits 2 zm = Some (zm, [])"
    using takeDigits_append [OF ln(7) dg(7), of "[]"] by simp
  have e13: "takeDigits 2 ?s12 = Some (zh, CHR '':'' # zm)"
    using ln(6) dg(6) by (rule takeDigits_append)
  have e12: "takeSign (sg # ?s12) = Some ([sg], ?s12)"
    using sg by (auto simp: takeSign_def)
  have e11: "spaces1 ?s10 = Some (sg # ?s12)"
    using ws(5,4) s by (rule spaces1_append)
  have e10: "takeAmPm (a # m # ?s10) = Some ([a, m], ?s10)"
    using ap by (simp add: takeAmPm_def)
  have e9: "dropWhile isWhiteSpace ?s9 = a # m # ?s10"
    using ws(3) a by (rule dropWhile_spaces)
  have e8: "takeDigits 2 (mi @ ?s9) = Some (mi, ?s9)"
    using ln(5) dg(5) by (rule takeDigits_append)
  have e7: "takeHour (h @ ?s7) = Some (h, ?s7)"
    using dg(4) ln(4) by (rule takeHour_colon)
  have e6: "spaces1 ?s5 = Some (h @ ?s7)"
    using spaces1_append [OF ws(2,1) h1, of "hr @ ?s7"] h by simp
  have e5: "takeDigits 2 (d @ ?s5) = Some (d, ?s5)"
    using ln(3) dg(3) by (rule takeDigits_append)
  have e3: "takeDigits 2 (mo @ CHR ''-'' # d @ ?s5) = Some (mo, CHR ''-'' # d @ ?s5)"
    using ln(2) dg(2) by (rule takeDigits_append)
  have e1: "takeDigits 4 (y @ CHR ''-'' # mo @ CHR ''-'' # d @ ?s5)
              = Some (y, CHR ''-'' # mo @ CHR ''-'' # d @ ?s5)"
    using ln(1) dg(1) by (rule takeDigits_append)
  have "matchStamp (y @ CHR ''-'' # mo @ CHR ''-'' # d @ ?s5)
          = Some \<lparr>g1 = y, g2 = mo, g3 = d, g4 = h, g5 = mi, g6 = [a, m], g7 = [sg],
                  g8 = zh, g9 = zm\<rparr>"
    unfolding matchStamp_def
    by (simp only: e1 e3 e5 e6 e7 e8 e9 e10 e11 e12 e13 e15 expectChar_def bind.simps
        list.case prod.case if_True refl)
  then show ?thesis by simp
qed

text \<open>
  C3. As stated (a string of the pattern coerces to the instant of its fields, read
  as a UTC wall-clock time, minus the stated offset), the claim fails where the year
  field is \<open>0000\<close> to \<open>0099\<close>: \<open>Date.UTC\<close> reads such a year as 1900 to 1999. The
  string \<open>0050-01-01 1:00AM +00:00\<close> coerces to 01:00 UTC on 1950-01-01, nineteen
  centuries after the instant of its fields.
\<close>

theorem parseDateValue_stamp_year_counterexample:
  "parseDateValue (fixedZone 0) (RStr ''0050-01-01 1:00AM +00:00'')
     = Some (DateMs (- 631148400000))
   \<and> utcWallTime 50 1 1 (to24h True 1) 0 - statedOffset (CHR ''+'') 0 0 * 60000
       = - 60589292400000
   \<and> (YearFromTime (- 631148400000), MonthFromTime (- 631148400000),
      DateFromTime (- 631148400000)) = (1950, 0, 1)
   \<and> (YearFromTime (- 60589292400000), MonthFromTime (- 60589292400000),
      DateFromTime (- 60589292400000)) = (50, 0, 1)"
  by code_simp

text \<open>
  C3, amended. A string that matches the timestamp pattern, after trimming, with a
  year field from \<open>0100\<close> to \<open>9999\<close> coerces to the instant obtained by turning the
  12-hour clock to 24 hours, reading the fields as a UTC wall-clock time and
  subtracting the stated offset in minutes. The fields are any digits of the lengths
  the pattern asks for, the gaps any white space, the meridiem in either case; the
  result is always a valid date.
\<close>

theorem parseDateValue_stamp:
  assumes dg: "list_all isDigit y" "list_all isDigit mo" "list_all isDigit d"
      "list_all isDigit h" "list_all isDigit mi" "list_all isDigit zh" "list_all isDigit zm"
    and ln: "length y = 4" "length mo = 2" "length d = 2" "length h = 1 \<or> length h = 2"
      "length mi = 2" "length zh = 2" "length zm = 2"
    and ws: "list_all isWhiteSpace w1" "w1 \<noteq> []" "list_all isWhiteSpace w2"
      "list_all isWhiteSpace w3" "w3 \<noteq> []"
    and pad: "list_all isWhiteSpace w0" "list_all isWhiteSpace w4"
    and ap: "a \<in> set ''APap''" "m \<in> set ''Mm''"
    and sg: "sg = CHR ''+'' \<or> sg = CHR ''-''"
    and yr: "100 \<le> digitsToNat y"
  shows "parseDateValue e
           (RStr (w0 @ (y @ ''-'' @ mo @ ''-'' @ d @ w1 @ h @ '':'' @ mi @ w2 @ [a, m] @ w3
                         @ [sg] @ zh @ '':'' @ zm) @ w4))
         = Some (DateMs
             (utcWallTime (int (digitsToNat y)) (int (digitsToNat mo)) (int (digitsToNat d))
                (to24h (a \<in> set ''Aa'') (int (digitsToNat h))) (int (digitsToNat mi))
              - statedOffset sg (int (digitsToNat zh)) (int (digitsToNat zm)) * 60000))"
proof -
  let ?core = "y @ ''-'' @ mo @ ''-'' @ d @ w1 @ h @ '':'' @ mi @ w2 @ [a, m] @ w3
                 @ [sg] @ zh @ '':'' @ zm"
  let ?Y = "int (digitsToNat y)" and ?MO = "int (digitsToNat mo)" and ?D = "int (digitsToNat d)"
  let ?H = "int (digitsToNat h)" and ?MI = "int (digitsToNat mi)"
  let ?ZH = "int (digitsToNat zh)" and ?ZM = "int (digitsToNat zm)"
  let ?H24 = "to24h (a \<in> set ''Aa'') ?H"
  let ?stamp = "\<lparr>g1 = y, g2 = mo, g3 = d, g4 = h, g5 = mi, g6 = [a, m], g7 = [sg],
                  g8 = zh, g9 = zm\<rparr>"
  \<comment> \<open>the trimmed string is the timestamp\<close>
  from dg(1) ln(1) obtain y1 yr where y: "y = y1 # yr" and y1: "\<not> isWhiteSpace y1"
    by (cases y) (auto simp: digit_plain)
  from dg(7) ln(7) obtain zr z2 where zm: "zm = zr @ [z2]" and z2: "\<not> isWhiteSpace z2"
    by (cases zm rule: rev_cases) (auto simp: digit_plain)
  let ?body = "yr @ ''-'' @ mo @ ''-'' @ d @ w1 @ h @ '':'' @ mi @ w2 @ [a, m] @ w3
                 @ [sg] @ zh @ '':'' @ zr"
  have ce: "?core = y1 # ?body @ [z2]"
    by (simp add: y zm)
  have tr: "trim (w0 @ ?core @ w4) = ?core"
    unfolding ce by (rule trim_padded [OF pad y1 z2])
  have ne: "?core \<noteq> []" "w0 @ ?core @ w4 \<noteq> []" by (simp_all add: y)
  \<comment> \<open>the pattern matches with these groups\<close>
  have ma: "matchStamp ?core = Some ?stamp"
    using dg ln ws ap sg by (rule matchStamp_fields)
  \<comment> \<open>the fields are in the range of their digits, so nothing is clipped\<close>
  have bY: "?Y < 10000" using digitsToNat_bound [OF dg(1)] ln(1) by simp
  have bmo: "?MO < 100" using digitsToNat_bound [OF dg(2)] ln(2) by simp
  have bd: "?D < 100" using digitsToNat_bound [OF dg(3)] ln(3) by simp
  have bmi: "?MI < 100" using digitsToNat_bound [OF dg(5)] ln(5) by simp
  have bzh: "?ZH < 100" using digitsToNat_bound [OF dg(6)] ln(6) by simp
  have bzm: "?ZM < 100" using digitsToNat_bound [OF dg(7)] ln(7) by simp
  have "0 \<le> ?H mod 12" and "?H mod 12 < 12" by simp_all
  then have bh: "0 \<le> ?H24" "?H24 < 24" unfolding to24h_def by (simp_all, linarith)
  have wall: "\<bar>utcWallTime ?Y ?MO ?D ?H24 ?MI\<bar> \<le> 300000000000000"
    using bY bmo bd bh bmi by (intro utcWallTime_bounds) simp_all
  have off: "\<bar>statedOffset sg ?ZH ?ZM * 60000\<bar> \<le> 400000000"
    using bzh bzm by (simp add: statedOffset_def abs_mult)
  have utc: "DateUTC ?Y (?MO - 1) ?D ?H24 ?MI 0 0 = DateMs (utcWallTime ?Y ?MO ?D ?H24 ?MI)"
    using wall yr by (simp add: DateUTC_def utcWallTime_def TimeClip_def fullYear_def)
  have clip: "TimeClip (utcWallTime ?Y ?MO ?D ?H24 ?MI - statedOffset sg ?ZH ?ZM * 60000)
                = DateMs (utcWallTime ?Y ?MO ?D ?H24 ?MI - statedOffset sg ?ZH ?ZM * 60000)"
    using wall off by (simp add: TimeClip_def)
  have am: "(map toUpperChar [a, m] = ''AM'') = (a \<in> set ''Aa'')"
    using ap by (rule upper_am)
  have h24: "(if map toUpperChar [a, m] = ''AM'' then ?H mod 12 else ?H mod 12 + 12) = ?H24"
    unfolding am to24h_def by simp
  have oe: "(if [sg] = ''+'' then 1 else - 1) * (?ZH * 60 + ?ZM) * 60 * 1000
              = statedOffset sg ?ZH ?ZM * 60000"
    by (simp add: statedOffset_def)
  have sd: "stampDate ?stamp
              = DateMs (utcWallTime ?Y ?MO ?D ?H24 ?MI - statedOffset sg ?ZH ?ZM * 60000)"
    unfolding stampDate_def Let_def
    by (simp only: stamp.simps h24 utc jsdate.case oe clip)
  show ?thesis
    unfolding parseDateValue_def
    by (simp only: tr ma sd Let_def falsy_def raw.case ne if_False option.case isValidDate_def
        jsdate.case if_True simp_thms raw.distinct)
qed


theorem parseDateValue_stamp_witness:
  "parseDateValue (fixedZone 0) (RStr ''2024-03-15 2:30PM -04:00'')
     = Some (DateMs 1710527400000)"
proof -
  have v: "utcWallTime (int (digitsToNat ''2024'')) (int (digitsToNat ''03''))
             (int (digitsToNat ''15'')) (to24h (CHR ''P'' \<in> set ''Aa'') (int (digitsToNat ''2'')))
             (int (digitsToNat ''30''))
           - statedOffset (CHR ''-'') (int (digitsToNat ''04'')) (int (digitsToNat ''00'')) * 60000
           = 1710527400000"
    by code_simp
  have yr: "100 \<le> digitsToNat ''2024''"
    by code_simp
  have "parseDateValue (fixedZone 0)
          (RStr ([] @ (''2024'' @ ''-'' @ ''03'' @ ''-'' @ ''15'' @ '' '' @ ''2'' @ '':'' @ ''30''
                       @ [] @ [CHR ''P'', CHR ''M''] @ '' '' @ [CHR ''-''] @ ''04'' @ '':''
                       @ ''00'') @ []))
        = Some (DateMs 1710527400000)"
    unfolding v [symmetric]
    by (rule parseDateValue_stamp) (simp_all add: isDigit_def isWhiteSpace_def yr)
  then show ?thesis by simp
qed

text \<open>The instant of the example is 18:30 UTC on 2024-03-15 (month 2 is March).\<close>

lemma stamp_example_instant:
  "(YearFromTime 1710527400000, MonthFromTime 1710527400000, DateFromTime 1710527400000,
    TimeWithinDay 1710527400000 div 3600000, TimeWithinDay 1710527400000 mod 3600000 div 60000)
     = (2024, 2, 15, 18, 30)"
  by code_simp

section \<open>Valid dates in parsed records\<close>

text \<open>The date coercer returns valid dates only: the strings are tested, and a
  serial date is valid when the spreadsheet library's calendar date is a representable
  instant (its years end at 9999).\<close>

lemma parseDateValue_valid:
  assumes "parseDateValue e v = Some d"
    and "\<And>n y m dd. parse_date_code e n = Some (y, m, dd)
           \<Longrightarrow> isValidDate (newDateLocal e y (m - 1) dd)"
  shows "isValidDate d"
proof (cases v)
  case (RNum n)
  with assms(1) obtain y m dd where "parse_date_code e n = Some (y, m, dd)"
    and "d = newDateLocal e y (m - 1) dd"
    by (auto simp: parseDateValue_def split: if_splits option.splits)
  with assms(2) show ?thesis by simp
next
  case (RStr s)
  with assms(1) show ?thesis
    by (auto simp: parseDateValue_def Let_def split: if_splits option.splits)
next
  case (RDate x)
  with assms(1) show ?thesis
    by (auto simp: parseDateValue_def split: if_splits)
qed (use assms(1) in \<open>auto simp: parseDateValue_def falsy_def split: if_splits\<close>)

lemma parseCell_checkInDate:
  assumes "checkInDate (fst st) = None \<or> (\<exists>v. checkInDate (fst st) = parseDateValue e v)"
  shows "checkInDate (fst (parseCell e st c)) = None
         \<or> (\<exists>v. checkInDate (fst (parseCell e st c)) = parseDateValue e v)"
proof (cases "columnMap (normalizeHeaderKey (trim (fst c)))")
  case None
  with assms show ?thesis by (simp add: parseCell_unrecognized)
next
  case (Some mk)
  show ?thesis
  proof (cases mk)
    case Inherited
    with Some assms show ?thesis by (auto simp: parseCell_def Let_def)
  next
    case (Field f)
    with Some assms show ?thesis
      by (cases f) (auto simp: parseCell_def Let_def)
  qed
qed

lemma parseRow_checkInDate:
  assumes "parseRow e row = Some r"
  shows "checkInDate r = None \<or> (\<exists>v. checkInDate r = parseDateValue e v)"
proof -
  have "checkInDate (fst (foldl (parseCell e) st row)) = None
        \<or> (\<exists>v. checkInDate (fst (foldl (parseCell e) st row)) = parseDateValue e v)"
    if "checkInDate (fst st) = None \<or> (\<exists>v. checkInDate (fst st) = parseDateValue e v)" for st
    using that by (induction row arbitrary: st) (simp_all add: parseCell_checkInDate)
  from this [of "(emptyRecord, False)"]
  have "checkInDate (fst (foldl (parseCell e) (emptyRecord, False) row)) = None
        \<or> (\<exists>v. checkInDate (fst (foldl (parseCell e) (emptyRecord, False) row))
                 = parseDateValue e v)"
    by (simp add: emptyRecord_def)
  moreover have "checkInDate (composeName x) = checkInDate x" for x
    by (simp add: composeName_def Let_def)
  ultimately show ?thesis
    using assms by (auto simp: parseRow_def Let_def split: if_splits)
qed

text \<open>Every record list that the row parser produces has valid check-in dates, when the
  serial dates of the spreadsheet library are representable instants.\<close>

lemma parseRow_validDates:
  assumes "\<And>n y m dd. parse_date_code e n = Some (y, m, dd)
             \<Longrightarrow> isValidDate (newDateLocal e y (m - 1) dd)"
  shows "validDates (List.map_filter (parseRow e) rows)"
proof -
  have "checkInDate r \<noteq> Some InvalidDate" if "parseRow e row = Some r" for row r
  proof
    assume i: "checkInDate r = Some InvalidDate"
    with parseRow_checkInDate [OF that] obtain v where "parseDateValue e v = Some InvalidDate"
      by auto
    from parseDateValue_valid [OF this assms] show False by (simp add: isValidDate_def)
  qed
  then show ?thesis
    by (auto simp: validDates_def list_all_iff List.map_filter_def)
qed

section \<open>The year of a time value\<close>

text \<open>\<open>YearFromDay\<close> computes the year as the language standard defines it.\<close>

lemma div_lo: "0 < c \<Longrightarrow> c * (x div c) \<le> (x::int)"
  using pos_mod_sign [of c x] mult_div_mod_eq [of c x] by linarith

lemma div_hi: "0 < c \<Longrightarrow> (x::int) < c * (x div c) + c"
  using pos_mod_bound [of c x] mult_div_mod_eq [of c x] by linarith

lemma estimate_lo_linear:
  fixes A B C q d :: int
  assumes "4 * A \<le> q" "q + 68 < 100 * B + 100" "400 * C \<le> q + 368" "146097 * q \<le> d * 400"
  shows "365 * (q - 1) + A - B + C \<le> d"
proof -
  have "400 * A \<le> 100 * q" using assms(1) by simp
  moreover have "4 * q + 272 < 400 * B + 400" using assms(2) by simp
  ultimately have "400 * (365 * (q - 1) + A - B + C) \<le> 400 * d"
    using assms(3,4) by (simp add: algebra_simps)
  then show ?thesis by simp
qed

lemma estimate_hi_linear:
  fixes A B C q d :: int
  assumes "q + 3 < 4 * A + 4" "100 * B \<le> q + 71" "q + 371 < 400 * C + 400"
    "d * 400 < 146097 * q + 146097"
  shows "d < 365 * (q + 2) + A - B + C"
proof -
  have "100 * q + 300 < 400 * A + 400" using assms(1) by simp
  moreover have "400 * B \<le> 4 * q + 284" using assms(2) by simp
  ultimately have "400 * d < 400 * (365 * (q + 2) + A - B + C)"
    using assms(3,4) by (simp add: algebra_simps)
  then show ?thesis by simp
qed

lemma DayFromYear_estimate_lo:
  fixes d q :: int
  assumes "146097 * q \<le> d * 400"
  shows "DayFromYear (1970 + q - 1) \<le> d"
proof -
  have a: "4 * (q div 4) \<le> q" by (rule div_lo) simp
  have b: "q + 68 < 100 * ((q + 68) div 100) + 100" by (rule div_hi) simp
  have c: "400 * ((q + 368) div 400) \<le> q + 368" by (rule div_lo) simp
  have "DayFromYear (1970 + q - 1)
          = 365 * (q - 1) + q div 4 - (q + 68) div 100 + (q + 368) div 400"
    by (simp add: DayFromYear_def add.commute)
  with estimate_lo_linear [OF a b c assms] show ?thesis by simp
qed

lemma DayFromYear_estimate_hi:
  fixes d q :: int
  assumes "d * 400 < 146097 * q + 146097"
  shows "d < DayFromYear (1970 + q + 2)"
proof -
  have a: "q + 3 < 4 * ((q + 3) div 4) + 4" by (rule div_hi) simp
  have b: "100 * ((q + 71) div 100) \<le> q + 71" by (rule div_lo) simp
  have c: "q + 371 < 400 * ((q + 371) div 400) + 400" by (rule div_hi) simp
  have "DayFromYear (1970 + q + 2)
          = 365 * (q + 2) + (q + 3) div 4 - (q + 71) div 100 + (q + 371) div 400"
    by (simp add: DayFromYear_def add.commute)
  with estimate_hi_linear [OF a b c assms] show ?thesis by simp
qed

text \<open>The year of a day is the largest year that starts on or before it.\<close>

lemma YearFromDay_correct:
  "DayFromYear (YearFromDay d) \<le> d \<and> d < DayFromYear (YearFromDay d + 1)"
proof -
  define q where "q = (d * 400) div 146097"
  have q1: "146097 * q \<le> d * 400" unfolding q_def by (rule div_lo) simp
  have q2: "d * 400 < 146097 * q + 146097" unfolding q_def by (rule div_hi) simp
  have lo: "DayFromYear (1970 + q - 1) \<le> d" using q1 by (rule DayFromYear_estimate_lo)
  have hi: "d < DayFromYear (1970 + q + 2)" using q2 by (rule DayFromYear_estimate_hi)
  have s: "1970 + q + 1 + 1 = 1970 + q + 2" by simp
  show ?thesis
    unfolding YearFromDay_def Let_def q_def [symmetric]
    using lo hi by (auto simp: s)
qed

section \<open>The clock at a wall time\<close>

text \<open>The first day of a year follows the first day of the year before by 365 days, or
  by 366 when that year is a leap year; so the year of a day is the one whose first day
  is the last at or before it.\<close>


lemma div_succ:
  fixes x c :: int
  assumes "0 < c"
  shows "(x + 1) div c = x div c + (if (x + 1) mod c = 0 then 1 else 0)"
proof -
  have r: "0 \<le> x mod c" "x mod c < c" using assms by simp_all
  have x: "c * (x div c) + x mod c = x" by simp
  show ?thesis
  proof (cases "x mod c + 1 = c")
    case True
    with x have "x + 1 = c * (x div c) + c" by linarith
    then have e: "x + 1 = c * (x div c + 1) + 0" by (simp add: ring_distribs)
    have "(x + 1) div c = x div c + 1"
      using e assms by (intro int_div_pos_eq [where r = 0]) simp_all
    moreover have "(x + 1) mod c = 0"
      using e assms by (intro int_mod_pos_eq [where q = "x div c + 1"]) simp_all
    ultimately show ?thesis by simp
  next
    case False
    with r have b: "0 \<le> x mod c + 1" "x mod c + 1 < c" by simp_all
    from x have e: "x + 1 = c * (x div c) + (x mod c + 1)" by linarith
    have "(x + 1) div c = x div c"
      using e b by (intro int_div_pos_eq [where r = "x mod c + 1"]) simp_all
    moreover have "(x + 1) mod c = x mod c + 1"
      using e b by (intro int_mod_pos_eq [where q = "x div c"]) simp_all
    ultimately show ?thesis using r by simp
  qed
qed

lemma mod_shift:
  fixes y c k :: int
  assumes "k mod c = 0"
  shows "(y - k) mod c = y mod c"
proof -
  have "(y - k) mod c = (y mod c - k mod c) mod c" by (simp add: mod_diff_eq)
  with assms show ?thesis by simp
qed


lemma DayFromYear_step:
  "DayFromYear (y + 1) = DayFromYear y + (if isLeapYear y then 366 else 365)"
proof -
  have s4: "(y - 1969 + 1) mod 4 = y mod 4"
    using mod_shift [of 1968 4 y] by (simp add: algebra_simps)
  have s100: "(y - 1901 + 1) mod 100 = y mod 100"
    using mod_shift [of 1900 100 y] by (simp add: algebra_simps)
  have s400: "(y - 1601 + 1) mod 400 = y mod 400"
    using mod_shift [of 1600 400 y] by (simp add: algebra_simps)
  have a: "(y + 1 - 1969) div 4 = (y - 1969) div 4 + (if y mod 4 = 0 then 1 else 0)"
    using div_succ [of 4 "y - 1969"] unfolding s4 by (simp add: algebra_simps)
  have b: "(y + 1 - 1901) div 100 = (y - 1901) div 100 + (if y mod 100 = 0 then 1 else 0)"
    using div_succ [of 100 "y - 1901"] unfolding s100 by (simp add: algebra_simps)
  have c: "(y + 1 - 1601) div 400 = (y - 1601) div 400 + (if y mod 400 = 0 then 1 else 0)"
    using div_succ [of 400 "y - 1601"] unfolding s400 by (simp add: algebra_simps)
  have d1: "y mod 100 = 0" if "y mod 400 = 0"
  proof -
    from that have "400 dvd y" by (simp add: mod_eq_0_iff_dvd)
    moreover have "(100::int) dvd 400" by simp
    ultimately have "100 dvd y" by (rule dvd_trans [rotated])
    then show ?thesis by (simp add: mod_eq_0_iff_dvd)
  qed
  have d2: "y mod 4 = 0" if "y mod 100 = 0"
  proof -
    from that have "100 dvd y" by (simp add: mod_eq_0_iff_dvd)
    moreover have "(4::int) dvd 100" by simp
    ultimately have "4 dvd y" by (rule dvd_trans [rotated])
    then show ?thesis by (simp add: mod_eq_0_iff_dvd)
  qed
  show ?thesis
  proof (cases "y mod 4 = 0")
    case False
    with d1 d2 have "y mod 100 \<noteq> 0" "y mod 400 \<noteq> 0" by auto
    with False show ?thesis
      unfolding DayFromYear_def isLeapYear_def a b c by simp
  next
    case m4: True
    show ?thesis
    proof (cases "y mod 100 = 0")
      case False
      with d1 have "y mod 400 \<noteq> 0" by auto
      with m4 False show ?thesis
        unfolding DayFromYear_def isLeapYear_def a b c by simp
    next
      case m100: True
      show ?thesis
      proof (cases "y mod 400 = 0")
        case True
        with m4 m100 show ?thesis
          unfolding DayFromYear_def isLeapYear_def a b c by simp
      next
        case False
        with m4 m100 show ?thesis
          unfolding DayFromYear_def isLeapYear_def a b c by simp
      qed
    qed
  qed
qed

lemma DayFromYear_less: "y < y' \<Longrightarrow> DayFromYear (y + 1) \<le> DayFromYear y'"
proof -
  assume "y < y'"
  then have "y + 1 \<le> y'" by simp
  then show ?thesis
  proof (induction y' rule: int_ge_induct)
    case base
    then show ?case by simp
  next
    case (step i)
    have "DayFromYear i \<le> DayFromYear (i + 1)"
      by (simp add: DayFromYear_step)
    with step show ?case by simp
  qed
qed

lemma YearFromDay_unique:
  assumes "DayFromYear y \<le> d" and "d < DayFromYear (y + 1)"
  shows "YearFromDay d = y"
proof (rule ccontr)
  assume n: "YearFromDay d \<noteq> y"
  note c = YearFromDay_correct [of d]
  from n consider "YearFromDay d < y" | "y < YearFromDay d" by linarith
  then show False
  proof cases
    case 1
    then have "DayFromYear (YearFromDay d + 1) \<le> DayFromYear y" by (rule DayFromYear_less)
    with c assms(1) show False by simp
  next
    case 2
    then have "DayFromYear (y + 1) \<le> DayFromYear (YearFromDay d)" by (rule DayFromYear_less)
    with c assms(2) show False by simp
  qed
qed

lemma month_cases:
  fixes month :: int
  assumes "1 \<le> month" "month \<le> 12"
  shows "month = 1 \<or> month = 2 \<or> month = 3 \<or> month = 4 \<or> month = 5 \<or> month = 6
         \<or> month = 7 \<or> month = 8 \<or> month = 9 \<or> month = 10 \<or> month = 11 \<or> month = 12"
  using assms by arith

lemma Day_MakeDate:
  assumes "0 \<le> time" "time < msPerDay"
  shows "Day (MakeDate day time) = day \<and> TimeWithinDay (MakeDate day time) = time"
proof -
  have e: "MakeDate day time = msPerDay * day + time"
    by (simp add: MakeDate_def)
  have "MakeDate day time div msPerDay = day"
    using e assms by (rule int_div_pos_eq)
  moreover have "MakeDate day time mod msPerDay = time"
    using e assms by (rule int_mod_pos_eq)
  ultimately show ?thesis by (simp add: Day_def TimeWithinDay_def)
qed

lemma calendar_reads_back:
  assumes "1 \<le> month" "month \<le> 12" "1 \<le> day" "day \<le> daysInMonth year month"
    and "Day t = MakeDay year (month - 1) day"
  shows "YearFromTime t = year \<and> MonthFromTime t = month - 1 \<and> DateFromTime t = day"
proof -
  let ?l = "isLeapYear year"
  let ?w = "monthStart (month - 1) ?l + day - 1"
  have dm: "(month - 1) div 12 = 0" "(month - 1) mod 12 = month - 1"
    using assms(1,2) by simp_all
  have md: "MakeDay year (month - 1) day = DayFromYear year + ?w"
    by (simp add: MakeDay_def Let_def dm)
  have w: "0 \<le> ?w" "?w < (if ?l then 366 else 365)"
    using month_cases [OF assms(1,2)] assms(3,4)
    by (auto simp: monthStart_def daysInMonth_def Let_def)
  have "DayFromYear year \<le> Day t" "Day t < DayFromYear (year + 1)"
    using w by (simp_all add: assms(5) md DayFromYear_step)
  then have y: "YearFromTime t = year"
    unfolding YearFromTime_def by (rule YearFromDay_unique)
  then have dw: "DayWithinYear t = ?w"
    by (simp add: DayWithinYear_def assms(5) md)
  have m: "MonthFromTime t = month - 1"
    unfolding MonthFromTime_def Let_def y dw
    using month_cases [OF assms(1,2)] assms(3,4)
    by (elim disjE) (auto simp add: monthStart_def daysInMonth_def Let_def split: if_splits)
  have "DateFromTime t = day"
    unfolding DateFromTime_def m y dw by simp
  with y m show ?thesis by simp
qed

text \<open>A UTC clock read at the instant \<open>utcWallTime\<close> shows the fields: their year,
  month, day, hour and minute, for every date of the calendar and every time of day.\<close>

lemma utcWallTime_reads_back:
  assumes "1 \<le> month" "month \<le> 12" "1 \<le> day" "day \<le> daysInMonth year month"
    and "0 \<le> hour" "hour < 24" "0 \<le> minute" "minute < 60"
  shows "YearFromTime (utcWallTime year month day hour minute) = year
         \<and> MonthFromTime (utcWallTime year month day hour minute) = month - 1
         \<and> DateFromTime (utcWallTime year month day hour minute) = day
         \<and> TimeWithinDay (utcWallTime year month day hour minute) div 3600000 = hour
         \<and> TimeWithinDay (utcWallTime year month day hour minute) mod 3600000 div 60000
             = minute"
proof -
  let ?time = "MakeTime hour minute 0 0"
  have t: "0 \<le> ?time" "?time < msPerDay"
    using assms(5-8) by (simp_all add: MakeTime_def msPerDay_def)
  note dm = Day_MakeDate [OF t, of "MakeDay year (month - 1) day"]
  from dm have d: "Day (utcWallTime year month day hour minute) = MakeDay year (month - 1) day"
    and w: "TimeWithinDay (utcWallTime year month day hour minute) = ?time"
    by (simp_all add: utcWallTime_def)
  have m: "0 \<le> minute * 60000" "minute * 60000 < 3600000"
    using assms(7,8) by simp_all
  have e: "?time = 3600000 * hour + minute * 60000"
    by (simp add: MakeTime_def)
  have h: "?time div 3600000 = hour"
    using e m by (rule int_div_pos_eq)
  have r: "?time mod 3600000 = minute * 60000"
    using e m by (rule int_mod_pos_eq)
  from calendar_reads_back [OF assms(1-4) d] h r show ?thesis
    by (simp add: w)
qed

end
